theory Spec2Isabelle
  imports Main
begin

section \<open>Python values used by the command-line entry point\<close>

text \<open>
  A Python \<open>str\<close> is a sequence of Unicode code points, so the texts that come from the
  user (the request, the website name, the piped data, the line typed at the prompt) are
  lists of code points. Identifiers, dictionary keys, file names and messages that the
  source writes as literals are ASCII and stay \<open>string\<close>; \<open>str\<close> injects a literal
  into the user-text type.
\<close>

type_synonym pystr = "nat list"

definition str :: "string \<Rightarrow> pystr" where
  "str s = map of_char s"

definition CR :: nat where "CR = 13"
definition LF :: nat where "LF = 10"

text \<open>
  The code points for which \<open>str.isspace\<close> holds, the ones that \<open>str.strip()\<close> with no
  argument removes: U+0009..U+000D, U+001C..U+0020, U+0085, U+00A0, U+1680,
  U+2000..U+200A, U+2028, U+2029, U+202F, U+205F and U+3000.
\<close>

definition isspace :: "nat \<Rightarrow> bool" where
  "isspace c =
     ((9 \<le> c \<and> c \<le> 13) \<or> (28 \<le> c \<and> c \<le> 32) \<or> c = 133 \<or> c = 160 \<or> c = 5760 \<or>
      (8192 \<le> c \<and> c \<le> 8202) \<or> c = 8232 \<or> c = 8233 \<or> c = 8239 \<or> c = 8287 \<or>
      c = 12288)"

definition lstrip :: "pystr \<Rightarrow> pystr" where
  "lstrip s = dropWhile isspace s"

definition rstrip :: "pystr \<Rightarrow> pystr" where
  "rstrip s = rev (dropWhile isspace (rev s))"

definition strip :: "pystr \<Rightarrow> pystr" where
  "strip s = lstrip (rstrip s)"

text \<open>
  \<open>data.replace("\r\n", "\n")\<close>: one scan from the left, every occurrence found is
  replaced and the scan goes on after it.
\<close>

fun replace_crlf :: "pystr \<Rightarrow> pystr" where
  "replace_crlf (c # d # s) =
     (if c = CR \<and> d = LF then LF # replace_crlf s else c # replace_crlf (d # s))"
| "replace_crlf s = s"

text \<open>A text holds a CRLF line ending when a CR is directly followed by an LF.\<close>

fun has_crlf :: "pystr \<Rightarrow> bool" where
  "has_crlf (c # d # s) = ((c = CR \<and> d = LF) \<or> has_crlf (d # s))"
| "has_crlf s = False"

text \<open>A CR directly followed by a CRLF pair: the only shape that one scan leaves a CRLF from.\<close>

fun has_crcrlf :: "pystr \<Rightarrow> bool" where
  "has_crcrlf (b # c # d # s) = ((b = CR \<and> c = CR \<and> d = LF) \<or> has_crcrlf (c # d # s))"
| "has_crcrlf s = False"

text \<open>No leading and no trailing whitespace.\<close>

definition trimmed :: "pystr \<Rightarrow> bool" where
  "trimmed s = (case s of [] \<Rightarrow> True | c # _ \<Rightarrow> \<not> isspace c \<and> \<not> isspace (last s))"

text \<open>Empty or whitespace only.\<close>

definition blank :: "pystr \<Rightarrow> bool" where
  "blank s = list_all isspace s"


section \<open>The command line and the process environment\<close>

text \<open>
  \<open>argparse.Namespace\<close> as \<open>parse_args\<close> builds it: two optional texts (\<open>None\<close> when the
  flag is not given) and two \<open>store_true\<close> switches.
\<close>

record args =
  customer_request :: "pystr option"
  website_name :: "pystr option"
  json :: bool
  no_prompt :: bool

text \<open>
  \<open>sys.stdin\<close> is \<open>None\<close>, a terminal, or a pipe or file whose whole content \<open>read()\<close>
  returns. \<open>input()\<close> on an attached stream returns the line typed, or raises
  \<open>EOFError\<close> or \<open>KeyboardInterrupt\<close>; these are the three replies. (\<open>input()\<close> with
  \<open>sys.stdin\<close> set to \<open>None\<close> raises \<open>RuntimeError\<close>: that reply is not among them.)
\<close>

datatype stdin_state = NoStdin | Tty | Piped pystr

datatype input_reply = Line pystr | EOFError | Interrupt

text \<open>\<open>_stdin_text\<close>\<close>

definition stdin_text :: "stdin_state \<Rightarrow> pystr" where
  "stdin_text sin =
     (case sin of
        Piped data \<Rightarrow> strip (replace_crlf data)
      | _ \<Rightarrow> [])"

text \<open>
  \<open>_ask_customer_request\<close>; what it prints is not modelled (the standard output is taken
  to accept the banner).
\<close>

definition ask_customer_request :: "input_reply \<Rightarrow> pystr" where
  "ask_customer_request r =
     (case r of
        Line s \<Rightarrow> strip s
      | EOFError \<Rightarrow> []
      | Interrupt \<Rightarrow> [])"

text \<open>
  \<open>resolve_customer_request\<close>. A Python \<open>str\<close> is true when it is not empty, and
  \<open>None\<close> is false.
\<close>

definition stdin_or_prompt :: "stdin_state \<Rightarrow> input_reply \<Rightarrow> args \<Rightarrow> pystr" where
  "stdin_or_prompt sin r a =
     (let piped = stdin_text sin in
      if piped \<noteq> [] then piped
      else if no_prompt a then []
      else ask_customer_request r)"

definition resolve_customer_request :: "stdin_state \<Rightarrow> input_reply \<Rightarrow> args \<Rightarrow> pystr" where
  "resolve_customer_request sin r a =
     (case customer_request a of
        None \<Rightarrow> stdin_or_prompt sin r a
      | Some req \<Rightarrow>
          if req \<noteq> [] \<and> strip req \<noteq> [] then strip req
          else stdin_or_prompt sin r a)"


section \<open>Exceptions, JSON values, YAML values\<close>

text \<open>
  The exceptions that occur, by class. Those with a \<open>string\<close> are raised by the program
  or by \<open>pathlib\<close> on a path, with the message or the path. \<open>Exception t\<close> stands for any
  other subclass of \<open>Exception\<close> that the library raises, \<open>t\<close> being its text \<open>str(e)\<close>.
  \<open>BaseException n\<close> stands for the classes outside \<open>Exception\<close> other than
  \<open>KeyboardInterrupt\<close> (\<open>SystemExit\<close>, \<open>GeneratorExit\<close>, \<open>asyncio.CancelledError\<close>),
  \<open>n\<close> being the class name.
\<close>

datatype exc =
    KeyError string
  | TypeError string
  | RuntimeError string
  | FileExistsError string
  | FileNotFoundError string
  | NotADirectoryError string
  | IsADirectoryError string
  | UnicodeEncodeError
  | Exception pystr
  | KeyboardInterrupt
  | BaseException string

text \<open>What \<open>except Exception\<close> catches.\<close>

definition is_Exception :: "exc \<Rightarrow> bool" where
  "is_Exception e = (case e of KeyboardInterrupt \<Rightarrow> False | BaseException _ \<Rightarrow> False | _ \<Rightarrow> True)"

text \<open>
  The Python values that \<open>json.dumps\<close> is given. \<open>JStrOf e\<close> is the text \<open>str(e)\<close> of an
  exception, kept symbolic. \<open>JOpaque\<close> is any value that \<open>json.dumps\<close> refuses (an object
  of a class of the library, a set, a dictionary with a key that is no scalar).
\<close>

datatype jvalue =
    JNull
  | JBool bool
  | JNum int
  | JStr pystr
  | JStrOf exc
  | JList "jvalue list"
  | JObj "(pystr \<times> jvalue) list"
  | JOpaque

text \<open>\<open>json.dumps\<close> returns for a value that holds nothing it refuses.\<close>

primrec dumpable :: "jvalue \<Rightarrow> bool" where
  "dumpable JNull = True"
| "dumpable (JBool b) = True"
| "dumpable (JNum n) = True"
| "dumpable (JStr s) = True"
| "dumpable (JStrOf e) = True"
| "dumpable (JList vs) = list_all (\<lambda>b. b) (map dumpable vs)"
| "dumpable (JObj kvs) = list_all snd (map (map_prod (\<lambda>k. k) dumpable) kvs)"
| "dumpable JOpaque = False"

text \<open>
  With \<open>ensure_ascii=False\<close> the dump holds the code points of every text and key as they
  are, and the UTF-8 codec refuses the surrogates U+D800..U+DFFF, which a \<open>str\<close> can hold
  (an argument that is not valid UTF-8 arrives with them). The text of an exception of the
  program or of \<open>pathlib\<close> has none.
\<close>

definition surrogate :: "nat \<Rightarrow> bool" where
  "surrogate c = (55296 \<le> c \<and> c \<le> 57343)"

definition utf8 :: "pystr \<Rightarrow> bool" where
  "utf8 s = list_all (\<lambda>c. \<not> surrogate c) s"

definition utf8_exc :: "exc \<Rightarrow> bool" where
  "utf8_exc e = (case e of Exception t \<Rightarrow> utf8 t | _ \<Rightarrow> True)"

primrec encodable :: "jvalue \<Rightarrow> bool" where
  "encodable JNull = True"
| "encodable (JBool b) = True"
| "encodable (JNum n) = True"
| "encodable (JStr s) = utf8 s"
| "encodable (JStrOf e) = utf8_exc e"
| "encodable (JList vs) = list_all (\<lambda>b. b) (map encodable vs)"
| "encodable (JObj kvs) =
     list_all (\<lambda>kb. utf8 (fst kb) \<and> snd kb) (map (map_prod (\<lambda>k. k) encodable) kvs)"
| "encodable JOpaque = True"

text \<open>What a YAML file loads to. The keys of the two configuration files are identifiers.\<close>

datatype yaml =
    YNull
  | YBool bool
  | YInt int
  | YStr pystr
  | YList "yaml list"
  | YDict "(string \<times> yaml) list"

type_synonym dict = "(string \<times> yaml) list"

text \<open>\<open>sub in s\<close> for two texts: \<open>sub\<close> occurs in \<open>s\<close>.\<close>

fun contains :: "pystr \<Rightarrow> pystr \<Rightarrow> bool" where
  "contains [] sub = (sub = [])"
| "contains (c # s) sub = (take (length sub) (c # s) = sub \<or> contains s sub)"

text \<open>\<open>str(n)\<close> for a natural number: its decimal digits.\<close>

function decimal :: "nat \<Rightarrow> pystr" where
  "decimal n = (if n < 10 then [48 + n] else decimal (n div 10) @ [48 + n mod 10])"
  by pat_completeness auto
termination
  by (relation "measure id") auto

declare decimal.simps [simp del]

text \<open>\<open>x or d\<close> for an optional text: \<open>None\<close> and the empty text are false.\<close>

definition or_default :: "pystr option \<Rightarrow> pystr \<Rightarrow> pystr" where
  "or_default x d = (case x of None \<Rightarrow> d | Some s \<Rightarrow> if s = [] then d else s)"


section \<open>The file system\<close>

text \<open>
  The working directory: what each relative path names, a directory or a regular file
  with its content, and what \<open>ARTIFACTS_DIR.resolve()\<close> gives there, which depends on the
  working directory and is not changed by what the program does. A file holds the value
  whose dump was written, or nothing when it was opened for writing and nothing was
  written. Symbolic links, permissions and the space left are outside this model.

  Beside the file system the program carries a record of every attempt to write a file:
  the path, and the exception if the attempt raised.
\<close>

datatype entry = Dir | File "jvalue option"

record fsys =
  entries :: "string \<rightharpoonup> entry"
  artifacts_resolved :: pystr

record world = fsys +
  wlog :: "(string \<times> exc option) list"

definition boot :: "fsys \<Rightarrow> world" where
  "boot fs = \<lparr>entries = entries fs, artifacts_resolved = artifacts_resolved fs, wlog = []\<rparr>"

text \<open>\<open>Path(p).exists()\<close>\<close>

definition path_exists :: "world \<Rightarrow> string \<Rightarrow> bool" where
  "path_exists w p = (entries w p \<noteq> None)"

text \<open>
  \<open>Path(p).mkdir(parents=True, exist_ok=True)\<close> for a path of one component: it raises
  \<open>FileExistsError\<close> when the path is a regular file.
\<close>

definition mkdir :: "string \<Rightarrow> world \<Rightarrow> exc + world" where
  "mkdir p w =
     (case entries w p of
        Some (File c) \<Rightarrow> Inl (FileExistsError p)
      | _ \<Rightarrow> Inr (w\<lparr>entries := (entries w)(p \<mapsto> Dir)\<rparr>))"

text \<open>\<open>Path(p).parent\<close>: the path up to its last separator, empty for the working directory.\<close>

definition parent :: "string \<Rightarrow> string" where
  "parent p = rev (drop 1 (dropWhile (\<lambda>c. c \<noteq> CHR ''/'') (rev p)))"

text \<open>
  \<open>open(p, "w")\<close>: the exception it raises, if any. The directory of \<open>p\<close> must be a
  directory and \<open>p\<close> must not be one.
\<close>

definition open_w :: "string \<Rightarrow> world \<Rightarrow> exc option" where
  "open_w p w =
     (case (if parent p = [] then Some Dir else entries w (parent p)) of
        None \<Rightarrow> Some (FileNotFoundError p)
      | Some (File c) \<Rightarrow> Some (NotADirectoryError p)
      | Some Dir \<Rightarrow>
          (case entries w p of
             Some Dir \<Rightarrow> Some (IsADirectoryError p)
           | _ \<Rightarrow> None))"

text \<open>An attempt that found the directory of its path: it did not fail for the lack of it.\<close>

definition found_directory :: "string \<times> exc option \<Rightarrow> bool" where
  "found_directory a =
     (case snd a of
        Some (FileNotFoundError p) \<Rightarrow> False
      | Some (NotADirectoryError p) \<Rightarrow> False
      | _ \<Rightarrow> True)"

text \<open>A file written by the library: opened, then filled.\<close>

definition write_file :: "string \<Rightarrow> jvalue \<Rightarrow> world \<Rightarrow> exc option \<times> world" where
  "write_file p v w =
     (case open_w p w of
        Some e \<Rightarrow> (Some e, w\<lparr>wlog := wlog w @ [(p, Some e)]\<rparr>)
      | None \<Rightarrow>
          (None, w\<lparr>entries := (entries w)(p \<mapsto> File (Some v)), wlog := wlog w @ [(p, None)]\<rparr>))"

text \<open>
  \<open>Path(p).write_text(text, encoding="utf-8")\<close> with \<open>text\<close> the dump of \<open>v\<close>: the file
  is opened, which empties it, and the text is encoded and written at once; a text that
  the codec refuses leaves the file empty.
\<close>

definition write_text :: "string \<Rightarrow> jvalue \<Rightarrow> world \<Rightarrow> exc option \<times> world" where
  "write_text p v w =
     (case open_w p w of
        Some e \<Rightarrow> (Some e, w\<lparr>wlog := wlog w @ [(p, Some e)]\<rparr>)
      | None \<Rightarrow>
          if encodable v then
            (None, w\<lparr>entries := (entries w)(p \<mapsto> File (Some v)), wlog := wlog w @ [(p, None)]\<rparr>)
          else
            (Some UnicodeEncodeError,
             w\<lparr>entries := (entries w)(p \<mapsto> File None),
               wlog := wlog w @ [(p, Some UnicodeEncodeError)]\<rparr>))"

definition ARTIFACTS_DIR :: string where
  "ARTIFACTS_DIR = ''artifacts''"

text \<open>\<open>_ensure_artifacts_dir\<close> of main.py\<close>

definition ensure_artifacts_dir :: "world \<Rightarrow> exc + world" where
  "ensure_artifacts_dir w = mkdir ARTIFACTS_DIR w"

text \<open>\<open>_ensure_dir\<close> of crew.py\<close>

definition ensure_dir :: "string \<Rightarrow> world \<Rightarrow> exc + world" where
  "ensure_dir p w = (if \<not> path_exists w p then mkdir p w else Inr w)"

text \<open>
  \<open>_persist_run_summary\<close>: \<open>json.dumps\<close> runs first and raises \<open>TypeError\<close> on a payload it
  refuses, before the file is opened.
\<close>

definition summary_path :: string where
  "summary_path = ARTIFACTS_DIR @ ''/'' @ ''run_summary.json''"

definition persist_run_summary :: "jvalue \<Rightarrow> world \<Rightarrow> exc option \<times> world" where
  "persist_run_summary payload w =
     (if dumpable payload then write_text summary_path payload w
      else (Some (TypeError ''Object is not JSON serializable''), w))"


section \<open>crew.py: agents, tasks and the crew\<close>

text \<open>
  \<open>_get\<close>: the entry of \<open>key\<close> in a configuration, which must be a dictionary. The
  annotation of \<open>cfg\<close> is a dictionary; the other branches are what \<open>key not in cfg\<close>
  and \<open>cfg[key]\<close> do on the other values an attribute can hold, among them the
  path text that the attribute is before the YAML is loaded.
\<close>

definition missing :: "string \<Rightarrow> string \<Rightarrow> string" where
  "missing kind key =
     ''Missing '' @ kind @ '' config for '' @ [CHR 0x27] @ key @ [CHR 0x27] @ ''. Check your YAML.''"

definition get :: "yaml \<Rightarrow> string \<Rightarrow> string \<Rightarrow> exc + dict" where
  "get cfg key kind =
     (case cfg of
        YDict d \<Rightarrow>
          (case map_of d key of
             Some (YDict v) \<Rightarrow> Inr v
           | _ \<Rightarrow> Inl (KeyError (missing kind key)))
      | YStr s \<Rightarrow>
          if contains s (str key) then Inl (TypeError ''string indices must be integers'')
          else Inl (KeyError (missing kind key))
      | YList l \<Rightarrow>
          if YStr (str key) \<in> set l then Inl (TypeError ''list indices must be integers'')
          else Inl (KeyError (missing kind key))
      | _ \<Rightarrow> Inl (TypeError ''argument is not iterable''))"

text \<open>
  The object that \<open>CrewBase\<close> hands to the methods: its two configuration attributes, as
  the loading of the YAML files left them.
\<close>

record wc =
  agents_config :: yaml
  tasks_config :: yaml

text \<open>
  The keyword arguments of \<open>Agent(...)\<close> and \<open>Task(...)\<close> besides \<open>config\<close>. \<open>callbacks\<close>
  is the empty list everywhere and is left out; \<open>allow_delegation\<close> is \<open>None\<close> where the
  call does not pass it. The keyword \<open>context\<close> of a task is the field \<open>task_context\<close>.
\<close>

record kwargs =
  verbose :: bool
  allow_code_execution :: bool
  code_execution_mode :: string
  max_execution_time :: nat
  max_retry_limit :: nat

record agent_kwargs = kwargs +
  allow_delegation :: "bool option"
  tags :: "string list"
  seed :: nat

record task_kwargs = kwargs +
  output_file :: string
  enforce_json_schema :: bool
  retry_on_schema_fail :: bool
  task_context :: "(string \<times> string) list"

type_synonym agent = "dict \<times> agent_kwargs"
type_synonym task = "dict \<times> task_kwargs"

definition Agent :: "exc + dict \<Rightarrow> agent_kwargs \<Rightarrow> exc + agent" where
  "Agent config kw = (case config of Inl e \<Rightarrow> Inl e | Inr c \<Rightarrow> Inr (c, kw))"

definition Task :: "exc + dict \<Rightarrow> task_kwargs \<Rightarrow> exc + task" where
  "Task config kw = (case config of Inl e \<Rightarrow> Inl e | Inr c \<Rightarrow> Inr (c, kw))"

subsection \<open>Agents\<close>

definition planner_kwargs :: agent_kwargs where
  "planner_kwargs =
     \<lparr>verbose = True, allow_code_execution = False, code_execution_mode = ''safe'',
      max_execution_time = 180, max_retry_limit = 2, allow_delegation = None,
      tags = [''planner'', ''requirements''], seed = 7\<rparr>"

definition planner :: "wc \<Rightarrow> exc + agent" where
  "planner self = Agent (get (agents_config self) ''planner'' ''agent'') planner_kwargs"

definition team_leader_kwargs :: agent_kwargs where
  "team_leader_kwargs =
     \<lparr>verbose = True, allow_code_execution = False, code_execution_mode = ''safe'',
      max_execution_time = 240, max_retry_limit = 2, allow_delegation = Some True,
      tags = [''leader'', ''router''], seed = 7\<rparr>"

definition team_leader :: "wc \<Rightarrow> exc + agent" where
  "team_leader self = Agent (get (agents_config self) ''team_leader'' ''agent'') team_leader_kwargs"

definition frontend_developer_kwargs :: agent_kwargs where
  "frontend_developer_kwargs =
     \<lparr>verbose = True, allow_code_execution = True, code_execution_mode = ''safe'',
      max_execution_time = 600, max_retry_limit = 3, allow_delegation = None,
      tags = [''frontend'', ''ui'', ''gradio''], seed = 7\<rparr>"

definition frontend_developer :: "wc \<Rightarrow> exc + agent" where
  "frontend_developer self = Agent (get (agents_config self) ''frontend_developer'' ''agent'') frontend_developer_kwargs"

definition backend_developer_kwargs :: agent_kwargs where
  "backend_developer_kwargs =
     \<lparr>verbose = True, allow_code_execution = True, code_execution_mode = ''safe'',
      max_execution_time = 600, max_retry_limit = 3, allow_delegation = None,
      tags = [''backend'', ''api'', ''db''], seed = 7\<rparr>"

definition backend_developer :: "wc \<Rightarrow> exc + agent" where
  "backend_developer self = Agent (get (agents_config self) ''backend_developer'' ''agent'') backend_developer_kwargs"

definition integrator_kwargs :: agent_kwargs where
  "integrator_kwargs =
     \<lparr>verbose = True, allow_code_execution = False, code_execution_mode = ''safe'',
      max_execution_time = 300, max_retry_limit = 2, allow_delegation = None,
      tags = [''integrator'', ''devops'', ''merge''], seed = 7\<rparr>"

definition integrator :: "wc \<Rightarrow> exc + agent" where
  "integrator self = Agent (get (agents_config self) ''integrator'' ''agent'') integrator_kwargs"

definition tester_kwargs :: agent_kwargs where
  "tester_kwargs =
     \<lparr>verbose = True, allow_code_execution = False, code_execution_mode = ''safe'',
      max_execution_time = 180, max_retry_limit = 2, allow_delegation = None,
      tags = [''qa'', ''tester'', ''e2e''], seed = 7\<rparr>"

definition tester :: "wc \<Rightarrow> exc + agent" where
  "tester self = Agent (get (agents_config self) ''tester'' ''agent'') tester_kwargs"

definition evaluator_kwargs :: agent_kwargs where
  "evaluator_kwargs =
     \<lparr>verbose = True, allow_code_execution = False, code_execution_mode = ''safe'',
      max_execution_time = 180, max_retry_limit = 2, allow_delegation = None,
      tags = [''evaluator'', ''review'', ''quality''], seed = 7\<rparr>"

definition evaluator :: "wc \<Rightarrow> exc + agent" where
  "evaluator self = Agent (get (agents_config self) ''evaluator'' ''agent'') evaluator_kwargs"

definition repository_manager_kwargs :: agent_kwargs where
  "repository_manager_kwargs =
     \<lparr>verbose = True, allow_code_execution = False, code_execution_mode = ''safe'',
      max_execution_time = 300, max_retry_limit = 2, allow_delegation = None,
      tags = [''repo'', ''consistency'', ''packaging''], seed = 7\<rparr>"

definition repository_manager :: "wc \<Rightarrow> exc + agent" where
  "repository_manager self = Agent (get (agents_config self) ''repository_manager'' ''agent'') repository_manager_kwargs"

subsection \<open>Tasks\<close>

definition planner_task_kwargs :: task_kwargs where
  "planner_task_kwargs =
     \<lparr>verbose = True, allow_code_execution = False, code_execution_mode = ''safe'',
      max_execution_time = 180, max_retry_limit = 2,
      output_file = ''artifacts/planner.json'',
      enforce_json_schema = True, retry_on_schema_fail = True,
      task_context =
        [(''customer_request'', ''{customer_request}'')]\<rparr>"

definition planner_task :: "wc \<Rightarrow> exc + task" where
  "planner_task self = Task (get (tasks_config self) ''planner_task'' ''task'') planner_task_kwargs"

definition team_leader_task_kwargs :: task_kwargs where
  "team_leader_task_kwargs =
     \<lparr>verbose = True, allow_code_execution = False, code_execution_mode = ''safe'',
      max_execution_time = 180, max_retry_limit = 2,
      output_file = ''artifacts/blueprint.md'',
      enforce_json_schema = False, retry_on_schema_fail = False,
      task_context =
        [(''planner_output'', ''planner_task.output''),
         (''website_name'', ''{website_name}'')]\<rparr>"

definition team_leader_task :: "wc \<Rightarrow> exc + task" where
  "team_leader_task self = Task (get (tasks_config self) ''team_leader_task'' ''task'') team_leader_task_kwargs"

definition frontend_developer_task_kwargs :: task_kwargs where
  "frontend_developer_task_kwargs =
     \<lparr>verbose = True, allow_code_execution = True, code_execution_mode = ''safe'',
      max_execution_time = 600, max_retry_limit = 3,
      output_file = ''artifacts/frontend.json'',
      enforce_json_schema = True, retry_on_schema_fail = True,
      task_context =
        [(''planner_output'', ''planner_task.output''),
         (''leader_blueprint'', ''team_leader_task.output''),
         (''ui_framework'', ''gradio'')]\<rparr>"

definition frontend_developer_task :: "wc \<Rightarrow> exc + task" where
  "frontend_developer_task self = Task (get (tasks_config self) ''frontend_developer_task'' ''task'') frontend_developer_task_kwargs"

definition backend_developer_task_kwargs :: task_kwargs where
  "backend_developer_task_kwargs =
     \<lparr>verbose = True, allow_code_execution = True, code_execution_mode = ''safe'',
      max_execution_time = 600, max_retry_limit = 3,
      output_file = ''artifacts/backend.json'',
      enforce_json_schema = True, retry_on_schema_fail = True,
      task_context =
        [(''planner_output'', ''planner_task.output''),
         (''leader_blueprint'', ''team_leader_task.output''),
         (''shared_classes'', ''frontend_developer_task.output.shared_classes'')]\<rparr>"

definition backend_developer_task :: "wc \<Rightarrow> exc + task" where
  "backend_developer_task self = Task (get (tasks_config self) ''backend_developer_task'' ''task'') backend_developer_task_kwargs"

definition integration_task_kwargs :: task_kwargs where
  "integration_task_kwargs =
     \<lparr>verbose = True, allow_code_execution = False, code_execution_mode = ''safe'',
      max_execution_time = 360, max_retry_limit = 2,
      output_file = ''artifacts/integration.json'',
      enforce_json_schema = True, retry_on_schema_fail = True,
      task_context =
        [(''frontend_artifact'', ''frontend_developer_task.output''),
         (''backend_artifact'', ''backend_developer_task.output''),
         (''planner_output'', ''planner_task.output'')]\<rparr>"

definition integration_task :: "wc \<Rightarrow> exc + task" where
  "integration_task self = Task (get (tasks_config self) ''integration_task'' ''task'') integration_task_kwargs"

definition repository_management_task_kwargs :: task_kwargs where
  "repository_management_task_kwargs =
     \<lparr>verbose = True, allow_code_execution = False, code_execution_mode = ''safe'',
      max_execution_time = 240, max_retry_limit = 2,
      output_file = ''artifacts/repository.json'',
      enforce_json_schema = True, retry_on_schema_fail = True,
      task_context =
        [(''integration_output'', ''integration_task.output''),
         (''website_folder'', ''website'')]\<rparr>"

definition repository_management_task :: "wc \<Rightarrow> exc + task" where
  "repository_management_task self = Task (get (tasks_config self) ''repository_management_task'' ''task'') repository_management_task_kwargs"

definition testing_task_kwargs :: task_kwargs where
  "testing_task_kwargs =
     \<lparr>verbose = True, allow_code_execution = False, code_execution_mode = ''safe'',
      max_execution_time = 300, max_retry_limit = 2,
      output_file = ''artifacts/test_report.json'',
      enforce_json_schema = True, retry_on_schema_fail = True,
      task_context =
        [(''features'', ''planner_task.output.features''),
         (''final_directory'', ''repository_management_task.output.final_directory''),
         (''launch_cmd'', ''python app.py'')]\<rparr>"

definition testing_task :: "wc \<Rightarrow> exc + task" where
  "testing_task self = Task (get (tasks_config self) ''testing_task'' ''task'') testing_task_kwargs"

definition evaluation_task_kwargs :: task_kwargs where
  "evaluation_task_kwargs =
     \<lparr>verbose = True, allow_code_execution = False, code_execution_mode = ''safe'',
      max_execution_time = 180, max_retry_limit = 2,
      output_file = ''artifacts/evaluation.json'',
      enforce_json_schema = True, retry_on_schema_fail = True,
      task_context =
        [(''customer_request'', ''{customer_request}''),
         (''test_report'', ''testing_task.output''),
         (''repo_summary'', ''repository_management_task.output'')]\<rparr>"

definition evaluation_task :: "wc \<Rightarrow> exc + task" where
  "evaluation_task self = Task (get (tasks_config self) ''evaluation_task'' ''task'') evaluation_task_kwargs"

subsection \<open>The crew\<close>

text \<open>
  The two lists of the \<open>@crew\<close> decorator, in their order, each name with the method of
  that name; and, for the tasks, each name with the keyword arguments of its method.
\<close>

definition crew_agents :: "(string \<times> (wc \<Rightarrow> exc + agent)) list" where
  "crew_agents =
     [(''planner'', planner),
      (''team_leader'', team_leader),
      (''frontend_developer'', frontend_developer),
      (''backend_developer'', backend_developer),
      (''integrator'', integrator),
      (''repository_manager'', repository_manager),
      (''tester'', tester),
      (''evaluator'', evaluator)]"

definition crew_tasks :: "(string \<times> (wc \<Rightarrow> exc + task)) list" where
  "crew_tasks =
     [(''planner_task'', planner_task),
      (''team_leader_task'', team_leader_task),
      (''frontend_developer_task'', frontend_developer_task),
      (''backend_developer_task'', backend_developer_task),
      (''integration_task'', integration_task),
      (''repository_management_task'', repository_management_task),
      (''testing_task'', testing_task),
      (''evaluation_task'', evaluation_task)]"

definition declared_tasks :: "(string \<times> task_kwargs) list" where
  "declared_tasks =
     [(''planner_task'', planner_task_kwargs),
      (''team_leader_task'', team_leader_task_kwargs),
      (''frontend_developer_task'', frontend_developer_task_kwargs),
      (''backend_developer_task'', backend_developer_task_kwargs),
      (''integration_task'', integration_task_kwargs),
      (''repository_management_task'', repository_management_task_kwargs),
      (''testing_task'', testing_task_kwargs),
      (''evaluation_task'', evaluation_task_kwargs)]"

text \<open>
  The registry of \<open>CrewBase\<close>: every method of a list is called on the object, and the
  first exception raised ends the construction.
\<close>

fun instantiate :: "(string \<times> (wc \<Rightarrow> exc + 'a)) list \<Rightarrow> wc \<Rightarrow> exc + (string \<times> 'a) list" where
  "instantiate [] self = Inr []"
| "instantiate ((name, method) # ms) self =
     (case method self of
        Inl e \<Rightarrow> Inl e
      | Inr x \<Rightarrow>
          (case instantiate ms self of
             Inl e \<Rightarrow> Inl e
           | Inr xs \<Rightarrow> Inr ((name, x) # xs)))"

datatype process = sequential | hierarchical

record crewobj =
  agents :: "(string \<times> agent) list"
  tasks :: "(string \<times> task) list"
  process :: process
  manager_agent :: agent

text \<open>\<open>WebsiteCreator.crew\<close>; \<open>self.agents["team_leader"]\<close> raises \<open>KeyError\<close> on a missing name.\<close>

definition crew :: "wc \<Rightarrow> exc + crewobj" where
  "crew self =
     (case instantiate crew_agents self of
        Inl e \<Rightarrow> Inl e
      | Inr ags \<Rightarrow>
          (case instantiate crew_tasks self of
             Inl e \<Rightarrow> Inl e
           | Inr tks \<Rightarrow>
               (case map_of ags ''team_leader'' of
                  None \<Rightarrow> Inl (KeyError ''team_leader'')
                | Some manager \<Rightarrow>
                    Inr \<lparr>agents = ags, tasks = tks, process = hierarchical,
                         manager_agent = manager\<rparr>)))"


section \<open>The pipeline run\<close>

text \<open>
  \<open>Crew.kickoff\<close> belongs to the orchestration library. What the program sees of it is
  taken from the environment: for a crew and its inputs, the tasks that ran, each with the
  output that the library writes to the \<open>output_file\<close> of the task, and then the value
  returned or the exception raised. A write that fails raises inside the library and ends
  the call.
\<close>

datatype outcome = Returns jvalue | Raises exc

type_synonym inputs = "(string \<times> pystr) list"

record env =
  stdin :: stdin_state
  reply :: input_reply
  now_year :: nat
  loaded_agents :: yaml
  loaded_tasks :: yaml
  library :: "crewobj \<Rightarrow> inputs \<Rightarrow> (string \<times> jvalue) list \<times> outcome"

fun write_outputs :: "(string \<times> task) list \<Rightarrow> (string \<times> jvalue) list \<Rightarrow> world \<Rightarrow> exc option \<times> world" where
  "write_outputs tks [] w = (None, w)"
| "write_outputs tks ((tid, v) # outs) w =
     (case map_of tks tid of
        None \<Rightarrow> write_outputs tks outs w
      | Some t \<Rightarrow>
          (case write_file (output_file (snd t)) v w of
             (Some e, w') \<Rightarrow> (Some e, w')
           | (None, w') \<Rightarrow> write_outputs tks outs w'))"

definition kickoff :: "env \<Rightarrow> crewobj \<Rightarrow> inputs \<Rightarrow> world \<Rightarrow> outcome \<times> world" where
  "kickoff env c ins w =
     (case library env c ins of
        (outs, res) \<Rightarrow>
          (case write_outputs (tasks c) outs w of
             (Some e, w') \<Rightarrow> (Raises e, w')
           | (None, w') \<Rightarrow> (res, w')))"

text \<open>
  \<open>WebsiteCreator()\<close>: \<open>CrewBase\<close> loads the two YAML files into the attributes, then
  \<open>__init__\<close> calls \<open>_ensure_dir\<close>.
\<close>

definition WebsiteCreator :: "env \<Rightarrow> world \<Rightarrow> exc + wc \<times> world" where
  "WebsiteCreator env w =
     (case ensure_dir ''artifacts'' w of
        Inl e \<Rightarrow> Inl e
      | Inr w' \<Rightarrow>
          Inr (\<lparr>agents_config = loaded_agents env, tasks_config = loaded_tasks env\<rparr>, w'))"

definition placeholder :: pystr where
  "placeholder = str ''Generated Website''"

text \<open>
  \<open>WebsiteCreator.run\<close>. Besides the outcome and the file system it gives the inputs
  that \<open>kickoff\<close> was called with, \<open>None\<close> when it was not called.
\<close>

definition run_inputs :: "pystr \<Rightarrow> pystr option \<Rightarrow> inputs" where
  "run_inputs request name =
     [(''customer_request'', request), (''website_name'', or_default name placeholder)]"

definition run :: "env \<Rightarrow> wc \<Rightarrow> pystr \<Rightarrow> pystr option \<Rightarrow> world \<Rightarrow> outcome \<times> inputs option \<times> world" where
  "run env self request name w =
     (let ins = run_inputs request name in
      case crew self of
        Inl e \<Rightarrow> (Raises e, None, w)
      | Inr c \<Rightarrow> (case kickoff env c ins w of (res, w') \<Rightarrow> (res, Some ins, w')))"


section \<open>main.py\<close>

text \<open>\<open>_build_inputs\<close>; \<open>datetime.now().year\<close> is the year of the environment's clock.\<close>

definition build_inputs :: "nat \<Rightarrow> pystr \<Rightarrow> inputs" where
  "build_inputs year request =
     [(''customer_request'', request), (''current_year'', decimal year)]"

text \<open>\<open>_validate_crewai_yaml_loaded\<close>\<close>

definition not_loaded :: "string \<Rightarrow> string" where
  "not_loaded what =
     what @ ''_config not loaded. Ensure '' @ [CHR 0x27] @ ''config/'' @ what @ ''.yaml'' @
     [CHR 0x27] @ '' exists and CrewBase path is correct.''"

definition is_dict :: "yaml \<Rightarrow> bool" where
  "is_dict y = (case y of YDict _ \<Rightarrow> True | _ \<Rightarrow> False)"

definition validate_crewai_yaml_loaded :: "wc \<Rightarrow> exc + unit" where
  "validate_crewai_yaml_loaded self =
     (if \<not> is_dict (agents_config self) then Inl (RuntimeError (not_loaded ''agents''))
      else if \<not> is_dict (tasks_config self) then Inl (RuntimeError (not_loaded ''tasks''))
      else Inr ())"

text \<open>
  The two payloads that \<open>main\<close> persists. \<open>dir\<close> is \<open>str(ARTIFACTS_DIR.resolve())\<close>.
\<close>

definition err_payload :: "exc \<Rightarrow> pystr \<Rightarrow> jvalue" where
  "err_payload e request =
     JObj [(str ''ok'', JBool False),
           (str ''error'', JStrOf e),
           (str ''customer_request'', JStr request)]"

definition summary :: "pystr \<Rightarrow> args \<Rightarrow> pystr \<Rightarrow> jvalue \<Rightarrow> jvalue" where
  "summary dir a request res =
     JObj [(str ''ok'', JBool True),
           (str ''customer_request'', JStr request),
           (str ''website_name'', JStr (or_default (website_name a) placeholder)),
           (str ''artifacts_dir'', JStr dir),
           (str ''result'', res)]"

text \<open>
  The class \<open>WebsiteCreator\<close> defines \<open>run\<close>, so \<open>hasattr(wc, "run")\<close> holds; the other
  branch of \<open>main\<close> is kept as the source has it.
\<close>

definition has_run :: bool where
  "has_run = True"

definition call_pipeline :: "env \<Rightarrow> args \<Rightarrow> wc \<Rightarrow> pystr \<Rightarrow> inputs \<Rightarrow> world \<Rightarrow> outcome \<times> inputs option \<times> world" where
  "call_pipeline env a self request ins w =
     (if has_run then run env self request (website_name a) w
      else
        case crew self of
          Inl e \<Rightarrow> (Raises e, None, w)
        | Inr c \<Rightarrow>
            (let kickoff_inputs =
                   ins @ [(''website_name'', or_default (website_name a) placeholder)]
             in case kickoff env c kickoff_inputs w of
                  (res, w') \<Rightarrow> (res, Some kickoff_inputs, w')))"

text \<open>
  What a run of \<open>main\<close> leaves: the exit code returned, or the exception that leaves
  \<open>main\<close>; the file system; and the inputs the pipeline was started with, if it was.
  What \<open>main\<close> prints is not modelled: the standard streams are taken to accept every
  text, so no \<open>print\<close> raises, and the switch \<open>--json\<close> has no effect here.
\<close>

record result =
  ret :: "exc + int"
  after :: world
  kicked :: "inputs option"

text \<open>
  The end of \<open>main\<close> after the guarded call: the two \<open>except\<close> clauses, and the summary
  of a call that returned. An exception that neither clause catches leaves \<open>main\<close>, as
  does one that \<open>_persist_run_summary\<close> raises.
\<close>

definition conclude :: "args \<Rightarrow> pystr \<Rightarrow> outcome \<times> inputs option \<times> world \<Rightarrow> result" where
  "conclude a request t =
     (case t of
        (Raises e, k, w3) \<Rightarrow>
          if e = KeyboardInterrupt then \<lparr>ret = Inr 130, after = w3, kicked = k\<rparr>
          else if is_Exception e then
            (case persist_run_summary (err_payload e request) w3 of
               (Some e', w4) \<Rightarrow> \<lparr>ret = Inl e', after = w4, kicked = k\<rparr>
             | (None, w4) \<Rightarrow> \<lparr>ret = Inr 1, after = w4, kicked = k\<rparr>)
          else \<lparr>ret = Inl e, after = w3, kicked = k\<rparr>
      | (Returns res, k, w3) \<Rightarrow>
          (case persist_run_summary (summary (artifacts_resolved w3) a request res) w3 of
             (Some e', w4) \<Rightarrow> \<lparr>ret = Inl e', after = w4, kicked = k\<rparr>
           | (None, w4) \<Rightarrow> \<lparr>ret = Inr 0, after = w4, kicked = k\<rparr>))"

definition main :: "env \<Rightarrow> args \<Rightarrow> fsys \<Rightarrow> result" where
  "main env a fs =
     (case ensure_artifacts_dir (boot fs) of
        Inl e \<Rightarrow> \<lparr>ret = Inl e, after = boot fs, kicked = None\<rparr>
      | Inr w1 \<Rightarrow>
          (let request = resolve_customer_request (stdin env) (reply env) a in
           if request = [] then \<lparr>ret = Inr 2, after = w1, kicked = None\<rparr>
           else
             let ins = build_inputs (now_year env) request in
             case WebsiteCreator env w1 of
               Inl e \<Rightarrow> \<lparr>ret = Inl e, after = w1, kicked = None\<rparr>
             | Inr (self, w2) \<Rightarrow>
                 (case validate_crewai_yaml_loaded self of
                    Inl e \<Rightarrow> \<lparr>ret = Inl e, after = w2, kicked = None\<rparr>
                  | Inr u \<Rightarrow> conclude a request (call_pipeline env a self request ins w2))))"


section \<open>References between tasks and kinds of output file\<close>

text \<open>
  A value of a task's context names the output of a task when it reads
  \<open><task-id>.output\<close> or \<open><task-id>.output.<subfield>\<close>; \<open>output_ref\<close> gives the task id.
\<close>

fun split_at :: "char \<Rightarrow> string \<Rightarrow> string list" where
  "split_at sep [] = [[]]"
| "split_at sep (c # s) =
     (if c = sep then [] # split_at sep s
      else (case split_at sep s of
              [] \<Rightarrow> [[c]]
            | x # xs \<Rightarrow> (c # x) # xs))"

definition output_ref :: "string \<Rightarrow> string option" where
  "output_ref v =
     (case split_at (CHR ''.'') v of
        tid # field # _ \<Rightarrow> if field = ''output'' \<and> tid \<noteq> [] then Some tid else None
      | _ \<Rightarrow> None)"

text \<open>The references of one task, and the relation "refers to the output of".\<close>

definition refs :: "task_kwargs \<Rightarrow> string list" where
  "refs kw = List.map_filter (\<lambda>(k, v). output_ref v) (task_context kw)"

definition depends_on :: "(string \<times> string) set" where
  "depends_on = {(t, u). \<exists>kw. (t, kw) \<in> set declared_tasks \<and> u \<in> set (refs kw)}"

text \<open>Every reference of every task of a list names a task seen before it.\<close>

fun refs_earlier :: "string list \<Rightarrow> (string \<times> task_kwargs) list \<Rightarrow> bool" where
  "refs_earlier seen [] = True"
| "refs_earlier seen ((tid, kw) # ts) =
     (list_all (\<lambda>u. u \<in> set seen) (refs kw) \<and> refs_earlier (seen @ [tid]) ts)"

text \<open>The extension of a file name: from its last dot on, empty without a dot.\<close>

definition extension :: "string \<Rightarrow> string" where
  "extension p =
     (if CHR ''.'' \<in> set p then CHR ''.'' # rev (takeWhile (\<lambda>c. c \<noteq> CHR ''.'') (rev p))
      else [])"


section \<open>Names used in the statements\<close>

text \<open>The flag \<open>--customer-request\<close> is absent or blank; the input stream holds data.\<close>

definition flag_absent :: "args \<Rightarrow> bool" where
  "flag_absent a = (case customer_request a of None \<Rightarrow> True | Some req \<Rightarrow> blank req)"

definition data_present :: "stdin_state \<Rightarrow> bool" where
  "data_present sin = (case sin of Piped data \<Rightarrow> \<not> blank data | _ \<Rightarrow> False)"

text \<open>The object \<open>main\<close> builds and the request it resolves.\<close>

definition self_of :: "env \<Rightarrow> wc" where
  "self_of env = \<lparr>agents_config = loaded_agents env, tasks_config = loaded_tasks env\<rparr>"

definition request_of :: "env \<Rightarrow> args \<Rightarrow> pystr" where
  "request_of env a = resolve_customer_request (stdin env) (reply env) a"

text \<open>
  The name \<open>artifacts\<close> is taken by a regular file; otherwise \<open>_ensure_artifacts_dir\<close>
  leaves the file system \<open>prepared\<close>.
\<close>

definition taken :: "fsys \<Rightarrow> bool" where
  "taken fs = (case entries fs ARTIFACTS_DIR of Some (File c) \<Rightarrow> True | _ \<Rightarrow> False)"

definition prepared :: "fsys \<Rightarrow> world" where
  "prepared fs =
     \<lparr>entries = (entries fs)(ARTIFACTS_DIR \<mapsto> Dir),
      artifacts_resolved = artifacts_resolved fs, wlog = []\<rparr>"


definition guarded :: "env \<Rightarrow> args \<Rightarrow> fsys \<Rightarrow> outcome \<times> inputs option \<times> world" where
  "guarded env a fs =
     call_pipeline env a (self_of env) (request_of env a)
       (build_inputs (now_year env) (request_of env a)) (prepared fs)"

text \<open>
  The files the program writes, and a file system on which every write goes through:
  \<open>artifacts\<close> is not a regular file and none of the files is a directory.
\<close>

definition sinks :: "string list" where
  "sinks = summary_path # map (\<lambda>nk. output_file (snd nk)) declared_tasks"

definition usable :: "fsys \<Rightarrow> bool" where
  "usable fs = (\<not> taken fs \<and> list_all (\<lambda>p. entries fs p \<noteq> Some Dir) sinks)"

text \<open>A payload that \<open>_persist_run_summary\<close> can dump and encode.\<close>

definition persistable :: "jvalue \<Rightarrow> bool" where
  "persistable v = (dumpable v \<and> encodable v)"

text \<open>What the summary file holds after a run, if it is a file that holds a payload.\<close>

definition summary_file :: "result \<Rightarrow> jvalue option" where
  "summary_file res =
     (case entries (after res) summary_path of Some (File (Some v)) \<Rightarrow> Some v | _ \<Rightarrow> None)"

text \<open>The website name in the inputs of the pipeline and in the persisted summary.\<close>

definition name_in_inputs :: "result \<Rightarrow> pystr option" where
  "name_in_inputs res =
     (case kicked res of None \<Rightarrow> None | Some ins \<Rightarrow> map_of ins ''website_name'')"

definition name_in_summary :: "result \<Rightarrow> pystr option" where
  "name_in_summary res =
     (case summary_file res of
        Some (JObj kv) \<Rightarrow>
          (case map_of kv (str ''website_name'') of Some (JStr n) \<Rightarrow> Some n | _ \<Rightarrow> None)
      | _ \<Rightarrow> None)"

text \<open>A configuration entry that is missing or is not a dictionary.\<close>

definition unusable :: "dict \<Rightarrow> string \<Rightarrow> bool" where
  "unusable d key = (case map_of d key of Some (YDict v) \<Rightarrow> False | _ \<Rightarrow> True)"

text \<open>The value of a text of decimal digits.\<close>

definition digits_value :: "pystr \<Rightarrow> nat" where
  "digits_value ds = foldl (\<lambda>n d. 10 * n + (d - 48)) 0 ds"


section \<open>Names used in the proofs\<close>

text \<open>
  What one write may change: the entry of its path, which stays or becomes a regular file,
  and the record of attempts.
\<close>

definition step :: "string \<Rightarrow> exc option \<Rightarrow> world \<Rightarrow> world \<Rightarrow> bool" where
  "step p r w w' =
     (artifacts_resolved w' = artifacts_resolved w \<and>
      wlog w' = wlog w @ [(p, r)] \<and>
      (\<forall>q. q \<noteq> p \<longrightarrow> entries w' q = entries w q) \<and>
      (\<forall>q. (entries w' q = Some Dir) = (entries w q = Some Dir)) \<and>
      (r = open_w p w \<or> r = Some UnicodeEncodeError \<and> open_w p w = None))"

text \<open>The same for a sequence of writes with the record \<open>L\<close>.\<close>

definition trail :: "(string \<times> exc option) list \<Rightarrow> world \<Rightarrow> world \<Rightarrow> bool" where
  "trail L w w' =
     (artifacts_resolved w' = artifacts_resolved w \<and>
      wlog w' = wlog w @ L \<and>
      (\<forall>q. q \<notin> fst ` set L \<longrightarrow> entries w' q = entries w q) \<and>
      (\<forall>q. (entries w' q = Some Dir) = (entries w q = Some Dir)))"

text \<open>The attempts of the library: all under the directory, none on the summary.\<close>

definition outputs_only :: "world \<Rightarrow> (string \<times> exc option) list \<Rightarrow> bool" where
  "outputs_only w L =
     (\<forall>x\<in>set L. parent (fst x) = ARTIFACTS_DIR \<and> fst x \<noteq> summary_path \<and>
        (entries w ARTIFACTS_DIR = Some Dir \<longrightarrow> found_directory x))"


section \<open>A sample environment\<close>

text \<open>
  A configuration with an empty dictionary for every agent and task of the crew, a library
  that runs the planner task and then ends as told, an empty working directory, and a
  working directory in which \<open>artifacts\<close> is a regular file.
\<close>

definition sample_config :: "(string \<times> 'a) list \<Rightarrow> yaml" where
  "sample_config ms = YDict (map (\<lambda>nm. (fst nm, YDict [])) ms)"

definition sample_env :: "stdin_state \<Rightarrow> input_reply \<Rightarrow> outcome \<Rightarrow> env" where
  "sample_env sin r res =
     \<lparr>stdin = sin, reply = r, now_year = 2025,
      loaded_agents = sample_config crew_agents,
      loaded_tasks = sample_config crew_tasks,
      library = (\<lambda>c ins. ([(''planner_task'', JStr (str ''plan''))], res))\<rparr>"

definition sample_args :: "pystr option \<Rightarrow> pystr option \<Rightarrow> bool \<Rightarrow> args" where
  "sample_args req name np =
     \<lparr>customer_request = req, website_name = name, json = False, no_prompt = np\<rparr>"

definition empty_fs :: fsys where
  "empty_fs = \<lparr>entries = Map.empty, artifacts_resolved = str ''/srv/site/artifacts''\<rparr>"

definition file_fs :: fsys where
  "file_fs =
     \<lparr>entries = [''artifacts'' \<mapsto> File (Some (JStr (str ''notes'')))],
      artifacts_resolved = str ''/srv/site/artifacts''\<rparr>"

text \<open>
  An object whose agent configuration has no usable entry: \<open>planner\<close> is a text and
  every other agent is missing.
\<close>

definition broken_self :: wc where
  "broken_self =
     \<lparr>agents_config = YDict [(''planner'', YStr (str ''a planner''))],
      tasks_config = sample_config crew_tasks\<rparr>"

section \<open>Facts about texts\<close>

text \<open>
  What \<open>strip\<close> leaves has no whitespace at either end, and it leaves nothing exactly
  of a blank text.
\<close>

lemma rstrip_last: "rstrip s \<noteq> [] \<Longrightarrow> \<not> isspace (last (rstrip s))"
proof -
  assume "rstrip s \<noteq> []"
  then have ne: "dropWhile isspace (rev s) \<noteq> []" by (simp add: rstrip_def)
  then have "\<not> isspace (hd (dropWhile isspace (rev s)))" by (rule hd_dropWhile)
  then show ?thesis using ne by (simp add: rstrip_def last_rev)
qed

lemma last_dropWhile: "dropWhile P s \<noteq> [] \<Longrightarrow> last (dropWhile P s) = last s"
  by (induction s) (auto split: if_splits)

lemma trimmed_strip: "trimmed (strip s)"
proof (cases "strip s")
  case Nil
  then show ?thesis by (simp add: trimmed_def)
next
  case (Cons c t)
  then have ne: "dropWhile isspace (rstrip s) \<noteq> []" by (simp add: strip_def lstrip_def)
  then have rne: "rstrip s \<noteq> []" by auto
  have "\<not> isspace (hd (dropWhile isspace (rstrip s)))" using ne by (rule hd_dropWhile)
  then have h: "\<not> isspace c" using Cons by (simp add: strip_def lstrip_def)
  have "last (strip s) = last (rstrip s)"
    using ne unfolding strip_def lstrip_def by (rule last_dropWhile)
  then have "\<not> isspace (last (strip s))" using rstrip_last[OF rne] by simp
  then show ?thesis using h Cons by (simp add: trimmed_def)
qed

lemma strip_Nil_iff: "strip s = [] \<longleftrightarrow> blank s"
proof
  assume "strip s = []"
  then have a: "\<forall>x\<in>set (dropWhile isspace (rev s)). isspace x"
    by (simp add: strip_def lstrip_def rstrip_def)
  have "dropWhile isspace (rev s) = []"
  proof (rule ccontr)
    assume ne: "dropWhile isspace (rev s) \<noteq> []"
    then have "\<not> isspace (hd (dropWhile isspace (rev s)))" by (simp add: hd_dropWhile)
    moreover have "hd (dropWhile isspace (rev s)) \<in> set (dropWhile isspace (rev s))"
      using ne by simp
    ultimately show False using a by blast
  qed
  then show "blank s" by (simp add: blank_def list_all_iff)
next
  assume "blank s"
  then have e: "dropWhile isspace (rev s) = []"
    by (simp add: blank_def list_all_iff)
  show "strip s = []" by (simp only: strip_def lstrip_def rstrip_def e) simp
qed

text \<open>
  A CRLF of a part of a text is a CRLF of the text, so stripping adds none; one scan of
  \<open>replace\<close> leaves a CRLF only where a CR stood directly before a CRLF.
\<close>

lemma has_crlf_appendI1: "has_crlf xs \<Longrightarrow> has_crlf (xs @ ys)"
  by (induction xs rule: has_crlf.induct) auto

lemma has_crlf_ConsI: "has_crlf ys \<Longrightarrow> has_crlf (x # ys)"
  by (cases ys) auto

lemma has_crlf_appendI2: "has_crlf ys \<Longrightarrow> has_crlf (xs @ ys)"
  by (induction xs) (auto intro: has_crlf_ConsI)

lemma has_crlf_dropWhile: "has_crlf (dropWhile P s) \<Longrightarrow> has_crlf s"
  by (metis has_crlf_appendI2 takeWhile_dropWhile_id)

lemma rstrip_prefix: "\<exists>t. s = rstrip s @ t"
proof -
  have "rev s = takeWhile isspace (rev s) @ dropWhile isspace (rev s)" by simp
  then have "rev (rev s) = rev (takeWhile isspace (rev s) @ dropWhile isspace (rev s))" by simp
  then have "s = rev (dropWhile isspace (rev s)) @ rev (takeWhile isspace (rev s))"
    by (simp only: rev_rev_ident rev_append)
  then show ?thesis unfolding rstrip_def by blast
qed

lemma has_crlf_strip: "has_crlf (strip s) \<Longrightarrow> has_crlf s"
proof -
  assume "has_crlf (strip s)"
  then have "has_crlf (rstrip s)" unfolding strip_def lstrip_def by (rule has_crlf_dropWhile)
  then show ?thesis using rstrip_prefix[of s] has_crlf_appendI1 by metis
qed

lemma has_crlf_Cons: "has_crlf (x # t) = ((x = CR \<and> (\<exists>u. t = LF # u)) \<or> has_crlf t)"
  by (cases t) auto

lemma has_crcrlf_ConsI: "has_crcrlf s \<Longrightarrow> has_crcrlf (x # s)"
  by (cases s rule: has_crcrlf.cases) auto

lemma replace_crlf_starts_LF:
  "replace_crlf s = LF # u \<Longrightarrow> (\<exists>v. s = LF # v) \<or> (\<exists>v. s = CR # LF # v)"
  by (cases s rule: replace_crlf.cases) (auto split: if_splits)

lemma has_crlf_replace: "has_crlf (replace_crlf s) \<Longrightarrow> has_crcrlf s"
proof (induction s rule: replace_crlf.induct)
  case (1 c d s)
  show ?case
  proof (cases "c = CR \<and> d = LF")
    case True
    with "1.prems" have "has_crlf (LF # replace_crlf s)" by simp
    then have "has_crlf (replace_crlf s)"
      by (simp add: has_crlf_Cons CR_def LF_def)
    with True "1.IH"(1) have "has_crcrlf s" by simp
    then show ?thesis by (intro has_crcrlf_ConsI)
  next
    case False
    with "1.prems" have "has_crlf (c # replace_crlf (d # s))" by simp
    then consider (a) u where "c = CR" "replace_crlf (d # s) = LF # u"
      | (b) "has_crlf (replace_crlf (d # s))"
      unfolding has_crlf_Cons by blast
    then show ?thesis
    proof cases
      case a
      from replace_crlf_starts_LF[OF a(2)] False a(1)
      obtain v where "d = CR" "s = LF # v" by auto
      with a(1) show ?thesis by simp
    next
      case b
      with False "1.IH"(2) have "has_crcrlf (d # s)" by simp
      then show ?thesis by (rule has_crcrlf_ConsI)
    qed
  qed
qed auto

lemma isspace_CR_LF: "isspace CR" "isspace LF"
  by (simp_all add: isspace_def CR_def LF_def)

lemma blank_replace_crlf: "blank (replace_crlf s) = blank s"
  by (induction s rule: replace_crlf.induct) (auto simp: blank_def isspace_CR_LF)

lemma blank_Nil: "s = [] \<Longrightarrow> blank s" by (simp add: blank_def)

section \<open>Facts about the resolution of the request\<close>

lemma stdin_text_Nil_iff: "stdin_text sin = [] \<longleftrightarrow> \<not> data_present sin"
  by (cases sin) (simp_all add: stdin_text_def data_present_def strip_Nil_iff blank_replace_crlf)

lemma resolve_flag:
  "customer_request a = Some req \<Longrightarrow> \<not> blank req \<Longrightarrow> resolve_customer_request sin r a = strip req"
  using blank_Nil[of req] by (auto simp: resolve_customer_request_def strip_Nil_iff)

lemma resolve_no_flag:
  "flag_absent a \<Longrightarrow> resolve_customer_request sin r a = stdin_or_prompt sin r a"
  by (auto simp: resolve_customer_request_def flag_absent_def strip_Nil_iff split: option.splits)

lemma trimmed_Nil: "trimmed []" by (simp add: trimmed_def)

lemma trimmed_stdin_or_prompt: "trimmed (stdin_or_prompt sin r a)"
  by (cases sin; cases r) (simp_all add: stdin_or_prompt_def stdin_text_def ask_customer_request_def Let_def trimmed_Nil trimmed_strip)

lemma trimmed_resolve: "trimmed (resolve_customer_request sin r a)"
  by (simp add: resolve_customer_request_def trimmed_stdin_or_prompt trimmed_strip split: option.splits)

lemma no_crlf_stdin_text: "\<not> has_crcrlf data \<Longrightarrow> \<not> has_crlf (stdin_text (Piped data))"
  using has_crlf_strip has_crlf_replace by (auto simp: stdin_text_def)


lemma or_default_cases:
  "or_default None d = d" "or_default (Some []) d = d" "n \<noteq> [] \<Longrightarrow> or_default (Some n) d = n"
  by (simp_all add: or_default_def)

lemma digits_value_snoc: "digits_value (ds @ [d]) = 10 * digits_value ds + (d - 48)"
  by (simp add: digits_value_def)

lemma digits_value_decimal: "digits_value (decimal n) = n"
proof (induction n rule: decimal.induct)
  case (1 n)
  show ?case
  proof (cases "n < 10")
    case True
    then show ?thesis by (simp add: decimal.simps[of n] digits_value_def)
  next
    case False
    with 1 have "digits_value (decimal (n div 10)) = n div 10" by simp
    with False show ?thesis by (simp add: decimal.simps[of n] digits_value_snoc)
  qed
qed

lemma decimal_inj: "(decimal m = decimal n) = (m = n)"
  using digits_value_decimal by metis

section \<open>Facts about the crew\<close>

lemmas task_tables = declared_tasks_def planner_task_kwargs_def team_leader_task_kwargs_def
  frontend_developer_task_kwargs_def backend_developer_task_kwargs_def integration_task_kwargs_def
  repository_management_task_kwargs_def testing_task_kwargs_def evaluation_task_kwargs_def

lemmas task_methods = planner_task_def team_leader_task_def frontend_developer_task_def
  backend_developer_task_def integration_task_def repository_management_task_def
  testing_task_def evaluation_task_def

lemmas agent_methods = planner_def team_leader_def frontend_developer_def
  backend_developer_def integrator_def repository_manager_def tester_def evaluator_def

lemma instantiate_Inr:
  "instantiate ms self = Inr xs \<Longrightarrow>
   list_all2 (\<lambda>nm nx. fst nm = fst nx \<and> snd nm self = Inr (snd nx)) ms xs"
  by (induction ms self arbitrary: xs rule: instantiate.induct) (auto split: sum.splits)

lemma instantiate_Inl:
  "instantiate ms self = Inl e \<Longrightarrow> \<exists>nm\<in>set ms. snd nm self = Inl e"
  by (induction ms self rule: instantiate.induct) (auto split: sum.splits)

lemma instantiate_fails:
  "nm \<in> set ms \<Longrightarrow> snd nm self = Inl e \<Longrightarrow> \<exists>e'. instantiate ms self = Inl e'"
  by (induction ms self rule: instantiate.induct) (auto split: sum.splits)

lemma Task_Inr: "Task g kw = Inr t \<Longrightarrow> snd t = kw"
  by (auto simp: Task_def split: sum.splits)

lemma tasks_declared:
  assumes "instantiate crew_tasks self = Inr tks"
  shows "map (\<lambda>nt. (fst nt, snd (snd nt))) tks = declared_tasks"
proof -
  from instantiate_Inr[OF assms] show ?thesis
    unfolding crew_tasks_def declared_tasks_def
    by (auto simp: list_all2_Cons1 task_methods dest!: Task_Inr)
qed

lemma crew_tasks_declared:
  "crew self = Inr c \<Longrightarrow> map (\<lambda>nt. (fst nt, snd (snd nt))) (tasks c) = declared_tasks"
  by (auto simp: crew_def split: sum.splits option.splits dest: tasks_declared)

lemma get_error:
  "get cfg key kind = Inl e \<Longrightarrow> is_Exception e \<and> e \<noteq> KeyboardInterrupt \<and> utf8_exc e"
  by (auto simp: get_def is_Exception_def utf8_exc_def split: yaml.splits option.splits if_splits)

lemma Agent_Inl: "Agent g kw = Inl e \<Longrightarrow> g = Inl e"
  by (auto simp: Agent_def split: sum.splits)

lemma Task_Inl: "Task g kw = Inl e \<Longrightarrow> g = Inl e"
  by (auto simp: Task_def split: sum.splits)

lemma agent_method_error:
  "nm \<in> set crew_agents \<Longrightarrow> snd nm self = Inl e \<Longrightarrow>
   get (agents_config self) (fst nm) ''agent'' = Inl e"
  by (auto simp: crew_agents_def agent_methods dest: Agent_Inl)

lemma task_method_error:
  "nm \<in> set crew_tasks \<Longrightarrow> snd nm self = Inl e \<Longrightarrow>
   get (tasks_config self) (fst nm) ''task'' = Inl e"
  by (auto simp: crew_tasks_def task_methods dest: Task_Inl)

lemma instantiate_names: "instantiate ms self = Inr xs \<Longrightarrow> map fst xs = map fst ms"
  by (induction ms self arbitrary: xs rule: instantiate.induct) (auto split: sum.splits)

lemma manager_found:
  assumes "instantiate crew_agents self = Inr ags"
  shows "map_of ags ''team_leader'' \<noteq> None"
proof -
  have "''team_leader'' \<in> set (map fst ags)"
    by (simp add: instantiate_names[OF assms] crew_agents_def)
  then show ?thesis by (simp add: map_of_eq_None_iff)
qed

lemma crew_Inl:
  assumes "crew self = Inl e"
  shows "(\<exists>nm\<in>set crew_agents. get (agents_config self) (fst nm) ''agent'' = Inl e) \<or>
         (\<exists>nm\<in>set crew_tasks. get (tasks_config self) (fst nm) ''task'' = Inl e)"
proof (cases "instantiate crew_agents self")
  case (Inl e')
  with assms have "e' = e" by (simp add: crew_def)
  with Inl instantiate_Inl agent_method_error show ?thesis by blast
next
  case (Inr ags)
  show ?thesis
  proof (cases "instantiate crew_tasks self")
    case (Inl e')
    with assms Inr have "e' = e" by (simp add: crew_def)
    with Inl instantiate_Inl task_method_error show ?thesis by blast
  next
    case (Inr tks)
    with assms \<open>instantiate crew_agents self = Inr ags\<close> manager_found[of self ags]
    show ?thesis by (auto simp: crew_def split: option.splits)
  qed
qed

lemma crew_error:
  "crew self = Inl e \<Longrightarrow> is_Exception e \<and> e \<noteq> KeyboardInterrupt \<and> utf8_exc e"
  using crew_Inl get_error by blast

lemma get_unusable:
  "unusable d key \<Longrightarrow> get (YDict d) key kind = Inl (KeyError (missing kind key))"
  by (auto simp: get_def unusable_def split: option.splits yaml.splits)

lemma get_dict_error:
  "get (YDict d) key kind = Inl e \<Longrightarrow> unusable d key \<and> e = KeyError (missing kind key)"
  by (auto simp: get_def unusable_def split: option.splits yaml.splits)

lemma agent_method_get:
  "nm \<in> set crew_agents \<Longrightarrow> get (agents_config self) (fst nm) ''agent'' = Inl e \<Longrightarrow>
   snd nm self = Inl e"
  by (auto simp: crew_agents_def agent_methods Agent_def)

lemma task_method_get:
  "nm \<in> set crew_tasks \<Longrightarrow> get (tasks_config self) (fst nm) ''task'' = Inl e \<Longrightarrow>
   snd nm self = Inl e"
  by (auto simp: crew_tasks_def task_methods Task_def)

lemma crew_fails:
  assumes "(\<exists>nm\<in>set crew_agents. \<exists>e. snd nm self = Inl e) \<or>
           (\<exists>nm\<in>set crew_tasks. \<exists>e. snd nm self = Inl e)"
  shows "\<exists>e. crew self = Inl e"
proof (cases "instantiate crew_agents self")
  case (Inl e)
  then show ?thesis by (simp add: crew_def)
next
  case (Inr ags)
  with assms instantiate_fails[of _ crew_agents self]
  obtain nm e where "nm \<in> set crew_tasks" "snd nm self = Inl e" by fastforce
  from instantiate_fails[OF this] Inr show ?thesis by (auto simp: crew_def)
qed

lemma run_crew_failed: "crew self = Inl e \<Longrightarrow> run env self request name w = (Raises e, None, w)"
  by (simp add: run_def)

text \<open>
  The references of the declared tasks, computed, and the check that each names an
  earlier task.
\<close>

lemma refs_values:
  "refs planner_task_kwargs = []"
  "refs team_leader_task_kwargs = [''planner_task'']"
  "refs frontend_developer_task_kwargs = [''planner_task'', ''team_leader_task'']"
  "refs backend_developer_task_kwargs = [''planner_task'', ''team_leader_task'', ''frontend_developer_task'']"
  "refs integration_task_kwargs = [''frontend_developer_task'', ''backend_developer_task'', ''planner_task'']"
  "refs repository_management_task_kwargs = [''integration_task'']"
  "refs testing_task_kwargs = [''planner_task'', ''repository_management_task'']"
  "refs evaluation_task_kwargs = [''testing_task'', ''repository_management_task'']"
  by (simp_all add: refs_def task_tables output_ref_def List.map_filter_simps)

lemma refs_earlier_declared: "refs_earlier [] declared_tasks"
  by (simp add: declared_tasks_def refs_values)

lemma refs_earlier_nth:
  "refs_earlier seen ts \<Longrightarrow> i < length ts \<Longrightarrow> u \<in> set (refs (snd (ts ! i))) \<Longrightarrow>
   u \<in> set seen \<or> (\<exists>j<i. fst (ts ! j) = u)"
proof (induction ts arbitrary: seen i)
  case Nil
  then show ?case by simp
next
  case (Cons t ts)
  obtain tid kw where t: "t = (tid, kw)" by (cases t)
  show ?case
  proof (cases i)
    case 0
    with Cons.prems t show ?thesis by (auto simp: list_all_iff)
  next
    case (Suc k)
    with Cons.prems t have "refs_earlier (seen @ [tid]) ts" "k < length ts"
      "u \<in> set (refs (snd (ts ! k)))" by simp_all
    from Cons.IH[OF this] consider "u \<in> set seen" | "u = tid" | j where "j < k" "fst (ts ! j) = u"
      by auto
    then show ?thesis
    proof cases
      case 1 then show ?thesis by simp
    next
      case 2 
      then have "0 < i \<and> fst ((t # ts) ! 0) = u" using Suc t by simp
      then show ?thesis by blast
    next
      case 3
      then have "Suc j < i \<and> fst ((t # ts) ! Suc j) = u" using Suc by simp
      then show ?thesis by blast
    qed
  qed
qed

lemma position_nth:
  "distinct xs \<Longrightarrow> i < length xs \<Longrightarrow> length (takeWhile (\<lambda>n. n \<noteq> xs ! i) xs) = i"
proof (induction xs arbitrary: i)
  case Nil
  then show ?case by simp
next
  case (Cons x xs)
  then show ?case by (cases i) auto
qed

lemma declared_distinct: "distinct (map fst declared_tasks)"
  by (simp add: declared_tasks_def)

lemma declared_refs_backwards:
  assumes "i < length declared_tasks" "u \<in> set (refs (snd (declared_tasks ! i)))"
  shows "\<exists>j<i. fst (declared_tasks ! j) = u"
  using refs_earlier_nth[OF refs_earlier_declared assms] by simp

lemma depends_on_acyclic: "acyclic depends_on"
proof (rule acyclicI_order[where f = "\<lambda>x. length (takeWhile (\<lambda>n. n \<noteq> x) (map fst declared_tasks))"])
  fix t u assume "(t, u) \<in> depends_on"
  then obtain kw where m: "(t, kw) \<in> set declared_tasks" and r: "u \<in> set (refs kw)"
    by (auto simp: depends_on_def)
  from m obtain i where i: "i < length declared_tasks" "declared_tasks ! i = (t, kw)"
    by (auto simp: in_set_conv_nth)
  with r declared_refs_backwards[of i u] obtain j where j: "j < i" "fst (declared_tasks ! j) = u"
    by auto
  let ?names = "map fst declared_tasks"
  have "?names ! i = t" "?names ! j = u" using i j by simp_all
  moreover have "length (takeWhile (\<lambda>n. n \<noteq> ?names ! i) ?names) = i"
    using i by (intro position_nth declared_distinct) simp
  moreover have "length (takeWhile (\<lambda>n. n \<noteq> ?names ! j) ?names) = j"
    using i j by (intro position_nth declared_distinct) simp
  ultimately show "length (takeWhile (\<lambda>n. n \<noteq> u) ?names) < length (takeWhile (\<lambda>n. n \<noteq> t) ?names)"
    using j by simp
qed

lemma declared_sinks:
  "\<forall>nk\<in>set declared_tasks.
     parent (output_file (snd nk)) = ARTIFACTS_DIR \<and>
     (extension (output_file (snd nk)) = ''.json'' \<longleftrightarrow> enforce_json_schema (snd nk))"
  by (simp add: task_tables parent_def extension_def ARTIFACTS_DIR_def)

section \<open>Facts about the file system\<close>

lemma parent_summary_path: "parent summary_path = ARTIFACTS_DIR"
  by (simp add: parent_def summary_path_def ARTIFACTS_DIR_def)

lemma summary_path_not_dir_name: "summary_path \<noteq> ARTIFACTS_DIR"
  by (simp add: summary_path_def ARTIFACTS_DIR_def)

lemma declared_outputs:
  "\<forall>nk\<in>set declared_tasks.
     parent (output_file (snd nk)) = ARTIFACTS_DIR \<and> output_file (snd nk) \<noteq> summary_path"
  by (simp add: task_tables parent_def summary_path_def ARTIFACTS_DIR_def)

lemma crew_outputs:
  assumes "crew self = Inr c"
  shows "\<forall>nt\<in>set (tasks c).
     parent (output_file (snd (snd nt))) = ARTIFACTS_DIR \<and>
     output_file (snd (snd nt)) \<noteq> summary_path \<and>
     output_file (snd (snd nt)) \<in> set sinks"
proof
  fix nt assume "nt \<in> set (tasks c)"
  then have "(fst nt, snd (snd nt)) \<in> set (map (\<lambda>nt. (fst nt, snd (snd nt))) (tasks c))"
    by force
  then have m: "(fst nt, snd (snd nt)) \<in> set declared_tasks"
    by (simp only: crew_tasks_declared[OF assms])
  then have "output_file (snd (snd nt)) \<in> set sinks"
    by (force simp: sinks_def)
  with m declared_outputs show "parent (output_file (snd (snd nt))) = ARTIFACTS_DIR \<and>
      output_file (snd (snd nt)) \<noteq> summary_path \<and> output_file (snd (snd nt)) \<in> set sinks"
    by fastforce
qed

text \<open>Opening a file under the directory fails only when the file is a directory.\<close>

lemma open_w_under:
  assumes "entries w ARTIFACTS_DIR = Some Dir" "parent p = ARTIFACTS_DIR"
  shows "open_w p w = (if entries w p = Some Dir then Some (IsADirectoryError p) else None)"
proof -
  have "parent p \<noteq> []" using assms(2) by (simp add: ARTIFACTS_DIR_def)
  then show ?thesis
    using assms by (auto simp: open_w_def split: option.splits entry.splits)
qed

lemma open_w_found:
  assumes "entries w ARTIFACTS_DIR = Some Dir" "parent p = ARTIFACTS_DIR"
  shows "found_directory (p, open_w p w)"
  by (simp add: open_w_under[OF assms] found_directory_def)

lemma open_w_dir_target: "open_w p w = None \<Longrightarrow> entries w p \<noteq> Some Dir"
  by (auto simp: open_w_def split: option.splits entry.splits if_splits)

lemma write_file_step: "write_file p v w = (r, w') \<Longrightarrow> step p r w w'"
  by (auto simp: write_file_def step_def dest: open_w_dir_target split: option.splits if_splits)

lemma write_text_step: "write_text p v w = (r, w') \<Longrightarrow> step p r w w'"
  by (auto simp: write_text_def step_def dest: open_w_dir_target split: option.splits if_splits)

lemma write_file_done:
  "write_file p v w = (None, w') \<Longrightarrow> entries w' p = Some (File (Some v))"
  by (auto simp: write_file_def split: option.splits)

lemma write_file_result: "fst (write_file p v w) = open_w p w"
  by (simp add: write_file_def split: option.splits)

lemma write_text_done:
  "write_text p v w = (None, w') \<Longrightarrow> entries w' p = Some (File (Some v)) \<and> encodable v"
  by (auto simp: write_text_def split: option.splits if_splits)

lemma write_text_goes:
  "open_w p w = None \<Longrightarrow> encodable v \<Longrightarrow> fst (write_text p v w) = None"
  by (simp add: write_text_def)

lemma trail_Nil: "trail [] w w"
  by (simp add: trail_def)

lemma trail_step: "step p r w w' \<Longrightarrow> trail [(p, r)] w w'"
  by (auto simp: trail_def step_def)

lemma trail_trans: "trail L1 w w1 \<Longrightarrow> trail L2 w1 w' \<Longrightarrow> trail (L1 @ L2) w w'"
  unfolding trail_def by (simp add: image_Un)

lemma trail_dir: "trail L w w' \<Longrightarrow> (entries w' q = Some Dir) = (entries w q = Some Dir)"
  by (simp add: trail_def)

lemma trail_untouched: "trail L w w' \<Longrightarrow> q \<notin> fst ` set L \<Longrightarrow> entries w' q = entries w q"
  by (simp add: trail_def)

lemma write_outputs_trail:
  assumes tks: "\<forall>nt\<in>set tks. parent (output_file (snd (snd nt))) = ARTIFACTS_DIR \<and>
      output_file (snd (snd nt)) \<noteq> summary_path \<and> output_file (snd (snd nt)) \<in> set sinks"
  shows "write_outputs tks outs w = (r, w') \<Longrightarrow>
     \<exists>L. trail L w w' \<and> outputs_only w L \<and>
         (r \<noteq> None \<longrightarrow> (\<exists>p. (p, r) \<in> set L)) \<and>
         (entries w ARTIFACTS_DIR = Some Dir \<and> (\<forall>p\<in>set sinks. entries w p \<noteq> Some Dir) \<longrightarrow>
            r = None)"
proof (induction outs arbitrary: w)
  case Nil
  then have "r = None" "w' = w" by simp_all
  then show ?case
    by (intro exI[of _ "[]"]) (simp add: trail_Nil outputs_only_def)
next
  case (Cons o1 outs)
  obtain tid v where o1: "o1 = (tid, v)" by (cases o1)
  show ?case
  proof (cases "map_of tks tid")
    case None
    with Cons.prems o1 have "write_outputs tks outs w = (r, w')" by simp
    from Cons.IH[OF this] show ?thesis .
  next
    case (Some t)
    then have "(tid, t) \<in> set tks" by (rule map_of_SomeD)
    with tks have p: "parent (output_file (snd t)) = ARTIFACTS_DIR"
      and q: "output_file (snd t) \<noteq> summary_path"
      and s: "output_file (snd t) \<in> set sinks" by auto
    let ?p = "output_file (snd t)"
    obtain r1 w1 where w1: "write_file ?p v w = (r1, w1)" by (cases "write_file ?p v w")
    have st: "step ?p r1 w w1" using w1 by (rule write_file_step)
    have r1: "r1 = open_w ?p w" using write_file_result[of ?p v w] w1 by simp
    have f1: "entries w ARTIFACTS_DIR = Some Dir \<longrightarrow> found_directory (?p, r1)"
      using open_w_found[OF _ p, of w] r1 by simp
    have g1: "entries w ARTIFACTS_DIR = Some Dir \<and> (\<forall>p\<in>set sinks. entries w p \<noteq> Some Dir) \<longrightarrow>
        r1 = None"
      using open_w_under[OF _ p, of w] r1 s by auto
    show ?thesis
    proof (cases r1)
      case (Some e)
      with Cons.prems o1 \<open>map_of tks tid = Some t\<close> w1 have e: "r = Some e" "w' = w1" by simp_all
      have "trail [(?p, r)] w w'" using st e Some by (simp add: trail_step)
      moreover have "outputs_only w [(?p, r)]"
        using p q f1 e Some by (simp add: outputs_only_def)
      moreover have "\<exists>p. (p, r) \<in> set [(?p, r)]" by simp
      moreover have "entries w ARTIFACTS_DIR = Some Dir \<and>
          (\<forall>p\<in>set sinks. entries w p \<noteq> Some Dir) \<longrightarrow> r = None"
        using g1 e Some by simp
      ultimately show ?thesis by blast
    next
      case None
      with Cons.prems o1 \<open>map_of tks tid = Some t\<close> w1
      have "write_outputs tks outs w1 = (r, w')" by simp
      from Cons.IH[OF this] obtain L where
        t: "trail L w1 w'" and o: "outputs_only w1 L"
        and f: "r \<noteq> None \<longrightarrow> (\<exists>p. (p, r) \<in> set L)"
        and g: "entries w1 ARTIFACTS_DIR = Some Dir \<and>
            (\<forall>p\<in>set sinks. entries w1 p \<noteq> Some Dir) \<longrightarrow> r = None"
        by blast
      have t1: "trail [(?p, r1)] w w1" using st by (rule trail_step)
      have d: "(entries w1 x = Some Dir) = (entries w x = Some Dir)" for x
        using trail_dir[OF t1] .
      have "trail ((?p, r1) # L) w w'" using trail_trans[OF t1 t] by simp
      moreover have "outputs_only w ((?p, r1) # L)"
        using o p q f1 d by (simp add: outputs_only_def)
      moreover have "r \<noteq> None \<longrightarrow> (\<exists>p. (p, r) \<in> set ((?p, r1) # L))"
        using f by auto
      moreover have "entries w ARTIFACTS_DIR = Some Dir \<and>
          (\<forall>p\<in>set sinks. entries w p \<noteq> Some Dir) \<longrightarrow> r = None"
        using g d by simp
      ultimately show ?thesis by blast
    qed
  qed
qed

text \<open>\<open>_persist_run_summary\<close> on a world whose directory exists.\<close>

lemma persist_cases:
  assumes "persist_run_summary v w = (r, w')"
  shows "(r = None \<and> dumpable v \<and> encodable v \<and> trail [(summary_path, None)] w w' \<and>
            entries w' summary_path = Some (File (Some v))) \<or>
         (r \<noteq> None \<and> \<not> dumpable v \<and> w' = w) \<or>
         (r \<noteq> None \<and> dumpable v \<and> trail [(summary_path, r)] w w')"
proof (cases "dumpable v")
  case False
  with assms show ?thesis by (auto simp: persist_run_summary_def)
next
  case True
  with assms have w: "write_text summary_path v w = (r, w')"
    by (simp add: persist_run_summary_def)
  then have t: "trail [(summary_path, r)] w w'"
    by (intro trail_step write_text_step)
  show ?thesis
  proof (cases r)
    case None
    with w write_text_done[of summary_path v w w'] t True show ?thesis by simp
  next
    case (Some e)
    with t True show ?thesis by simp
  qed
qed

lemma persist_goes:
  assumes "entries w ARTIFACTS_DIR = Some Dir" "entries w summary_path \<noteq> Some Dir"
    "persistable v"
  shows "fst (persist_run_summary v w) = None"
proof -
  have "open_w summary_path w = None"
    using open_w_under[OF assms(1) parent_summary_path] assms(2) by simp
  then show ?thesis
    using assms(3) by (simp add: persist_run_summary_def persistable_def write_text_goes)
qed

lemma persist_found:
  assumes "entries w ARTIFACTS_DIR = Some Dir" "persist_run_summary v w = (r, w')"
  shows "wlog w' = wlog w \<or> (\<exists>x. wlog w' = wlog w @ [(summary_path, x)] \<and> found_directory (summary_path, x))"
proof (cases "dumpable v")
  case False
  with assms show ?thesis by (auto simp: persist_run_summary_def)
next
  case True
  with assms have w: "write_text summary_path v w = (r, w')"
    by (simp add: persist_run_summary_def)
  from write_text_step[OF this] have "wlog w' = wlog w @ [(summary_path, r)]"
    and "r = open_w summary_path w \<or> r = Some UnicodeEncodeError"
    by (auto simp: step_def)
  moreover have "found_directory (summary_path, open_w summary_path w)"
    using open_w_found[OF assms(1) parent_summary_path] .
  moreover have "found_directory (summary_path, Some UnicodeEncodeError)"
    by (simp add: found_directory_def)
  ultimately show ?thesis by auto
qed

lemma persist_saved:
  assumes "persist_run_summary v w = (None, w')"
  shows "wlog w' = wlog w @ [(summary_path, None)]"
    and "entries w' summary_path = Some (File (Some v))"
    and "persistable v"
    and "entries w' ARTIFACTS_DIR = entries w ARTIFACTS_DIR"
  using persist_cases[OF assms] summary_path_not_dir_name
  by (auto simp: trail_def persistable_def)


lemma persist_only_summary:
  assumes "persist_run_summary v w = (None, w')"
  shows "q \<noteq> summary_path \<Longrightarrow> entries w' q = entries w q"
  using persist_cases[OF assms] by (auto simp: trail_def)

lemma utf8_names:
  "utf8 (str ''ok'')" "utf8 (str ''error'')" "utf8 (str ''customer_request'')"
  "utf8 (str ''website_name'')" "utf8 (str ''artifacts_dir'')" "utf8 (str ''result'')"
  "utf8 (str ''Generated Website'')"
  by (simp_all add: utf8_def str_def surrogate_def)

lemma err_payload_persistable:
  "utf8_exc e \<Longrightarrow> utf8 request \<Longrightarrow> persistable (err_payload e request)"
  by (simp add: persistable_def err_payload_def utf8_names)

section \<open>The shape of a run of main\<close>

lemma ensure_taken:
  "taken fs \<Longrightarrow> ensure_artifacts_dir (boot fs) = Inl (FileExistsError ARTIFACTS_DIR)"
  by (auto simp: taken_def ensure_artifacts_dir_def mkdir_def boot_def
      split: option.splits entry.splits)

lemma ensure_prepared: "\<not> taken fs \<Longrightarrow> ensure_artifacts_dir (boot fs) = Inr (prepared fs)"
  by (auto simp: taken_def ensure_artifacts_dir_def mkdir_def boot_def prepared_def
      split: option.splits entry.splits)

lemma prepared_dir: "entries (prepared fs) ARTIFACTS_DIR = Some Dir"
  by (simp add: prepared_def)

lemma WebsiteCreator_prepared: "WebsiteCreator env (prepared fs) = Inr (self_of env, prepared fs)"
  by (simp add: WebsiteCreator_def ensure_dir_def path_exists_def prepared_def self_of_def
      ARTIFACTS_DIR_def)

lemma main_run:
  "main env a fs =
     (if taken fs then
        \<lparr>ret = Inl (FileExistsError ARTIFACTS_DIR), after = boot fs, kicked = None\<rparr>
      else if request_of env a = [] then \<lparr>ret = Inr 2, after = prepared fs, kicked = None\<rparr>
      else
        case validate_crewai_yaml_loaded (self_of env) of
          Inl e \<Rightarrow> \<lparr>ret = Inl e, after = prepared fs, kicked = None\<rparr>
        | Inr u \<Rightarrow> conclude a (request_of env a) (guarded env a fs))"
proof (cases "taken fs")
  case True
  then show ?thesis by (simp add: main_def ensure_taken)
next
  case False
  then show ?thesis
    unfolding main_def request_of_def guarded_def Let_def
    by (simp add: ensure_prepared WebsiteCreator_prepared)
qed

lemma sinks_not_dir_name: "ARTIFACTS_DIR \<notin> set sinks"
  by (simp add: sinks_def task_tables summary_path_def ARTIFACTS_DIR_def)

lemma summary_in_sinks: "summary_path \<in> set sinks"
  by (simp add: sinks_def)

lemma usable_prepared:
  assumes "usable fs"
  shows "\<forall>p\<in>set sinks. entries (prepared fs) p \<noteq> Some Dir"
proof
  fix p assume p: "p \<in> set sinks"
  then have "p \<noteq> ARTIFACTS_DIR" using sinks_not_dir_name by auto
  moreover have "entries fs p \<noteq> Some Dir"
    using assms p by (simp add: usable_def list_all_iff)
  ultimately show "entries (prepared fs) p \<noteq> Some Dir" by (simp add: prepared_def)
qed

text \<open>The guarded call: the crew is not built, or the library ran and its outputs were written.\<close>

lemma guarded_cases:
  obtains
    (failed) e where "crew (self_of env) = Inl e"
      "guarded env a fs = (Raises e, None, prepared fs)"
  | (ran) c outs lres r w3 L where "crew (self_of env) = Inr c"
      "library env c (run_inputs (request_of env a) (website_name a)) = (outs, lres)"
      "guarded env a fs =
         ((case r of Some e \<Rightarrow> Raises e | None \<Rightarrow> lres),
          Some (run_inputs (request_of env a) (website_name a)), w3)"
      "trail L (prepared fs) w3" "outputs_only (prepared fs) L"
      "r \<noteq> None \<longrightarrow> (\<exists>p. (p, r) \<in> set L)"
      "usable fs \<longrightarrow> r = None"
proof (cases "crew (self_of env)")
  case (Inl e)
  then have "guarded env a fs = (Raises e, None, prepared fs)"
    by (simp add: guarded_def call_pipeline_def has_run_def run_def)
  with Inl show ?thesis by (rule failed)
next
  case (Inr c)
  let ?ins = "run_inputs (request_of env a) (website_name a)"
  obtain outs lres where l: "library env c ?ins = (outs, lres)"
    by (cases "library env c ?ins")
  obtain r w3 where w: "write_outputs (tasks c) outs (prepared fs) = (r, w3)"
    by (cases "write_outputs (tasks c) outs (prepared fs)")
  from write_outputs_trail[OF crew_outputs[OF Inr] w] obtain L where
    t: "trail L (prepared fs) w3" and o: "outputs_only (prepared fs) L"
    and f: "r \<noteq> None \<longrightarrow> (\<exists>p. (p, r) \<in> set L)"
    and g: "entries (prepared fs) ARTIFACTS_DIR = Some Dir \<and>
        (\<forall>p\<in>set sinks. entries (prepared fs) p \<noteq> Some Dir) \<longrightarrow> r = None"
    by blast
  have u: "usable fs \<longrightarrow> r = None" using g usable_prepared prepared_dir by blast
  have "guarded env a fs =
         ((case r of Some e \<Rightarrow> Raises e | None \<Rightarrow> lres), Some ?ins, w3)"
    using Inr l w
    by (simp add: guarded_def call_pipeline_def has_run_def run_def kickoff_def Let_def
        split: option.splits)
  from ran[OF Inr l this t o f u] show ?thesis .
qed

text \<open>What the guarded call leaves of the file system, whatever its outcome.\<close>

lemma guarded_world:
  assumes "guarded env a fs = (res, k, w3)"
  obtains L where "trail L (prepared fs) w3" "outputs_only (prepared fs) L"
    "k = None \<or> k = Some (run_inputs (request_of env a) (website_name a))"
    "k = None \<longrightarrow> (\<exists>e. res = Raises e \<and> crew (self_of env) = Inl e)"
proof (cases rule: guarded_cases[of env a fs])
  case (failed e)
  with assms have "w3 = prepared fs" "k = None" "res = Raises e" by simp_all
  with failed that[of "[]"] show ?thesis by (simp add: trail_Nil outputs_only_def)
next
  case (ran c outs lres r w' L)
  with assms have "w3 = w'" "k = Some (run_inputs (request_of env a) (website_name a))"
    by simp_all
  with ran that[of L] show ?thesis by simp
qed

lemma guarded_keeps:
  assumes "guarded env a fs = (res, k, w3)"
  shows "entries w3 ARTIFACTS_DIR = Some Dir"
    and "entries w3 summary_path = entries fs summary_path"
    and "artifacts_resolved w3 = artifacts_resolved fs"
    and "(summary_path, x) \<notin> set (wlog w3)"
    and "\<forall>y\<in>set (wlog w3). parent (fst y) = ARTIFACTS_DIR \<and> found_directory y"
    and "(entries w3 summary_path = Some Dir) = (entries fs summary_path = Some Dir)"
proof -
  from guarded_world[OF assms] obtain L where
    t: "trail L (prepared fs) w3" and o: "outputs_only (prepared fs) L" by blast
  have l: "wlog w3 = L" using t by (simp add: trail_def prepared_def)
  have n: "summary_path \<notin> fst ` set L" using o by (auto simp: outputs_only_def)
  show "entries w3 ARTIFACTS_DIR = Some Dir"
    using trail_dir[OF t, of ARTIFACTS_DIR] prepared_dir by simp
  show s: "entries w3 summary_path = entries fs summary_path"
    using trail_untouched[OF t n] summary_path_not_dir_name by (simp add: prepared_def)
  show "artifacts_resolved w3 = artifacts_resolved fs"
    using t by (simp add: trail_def prepared_def)
  show "(summary_path, x) \<notin> set (wlog w3)" using n l by force
  show "\<forall>y\<in>set (wlog w3). parent (fst y) = ARTIFACTS_DIR \<and> found_directory y"
    using o l prepared_dir by (simp add: outputs_only_def)
  show "(entries w3 summary_path = Some Dir) = (entries fs summary_path = Some Dir)"
    using s by simp
qed

lemma validate_error:
  "validate_crewai_yaml_loaded self = Inl e \<Longrightarrow> \<exists>m. e = RuntimeError m"
  by (auto simp: validate_crewai_yaml_loaded_def split: if_splits)

text \<open>The ways in which a run of \<open>main\<close> ends.\<close>

lemma main_ends:
  obtains
    (blocked) "taken fs"
      "main env a fs =
         \<lparr>ret = Inl (FileExistsError ARTIFACTS_DIR), after = boot fs, kicked = None\<rparr>"
  | (no_request) "\<not> taken fs" "request_of env a = []"
      "main env a fs = \<lparr>ret = Inr 2, after = prepared fs, kicked = None\<rparr>"
  | (not_loaded) m where "\<not> taken fs" "request_of env a \<noteq> []"
      "validate_crewai_yaml_loaded (self_of env) = Inl (RuntimeError m)"
      "main env a fs = \<lparr>ret = Inl (RuntimeError m), after = prepared fs, kicked = None\<rparr>"
  | (interrupted) k w3 where "\<not> taken fs" "request_of env a \<noteq> []"
      "validate_crewai_yaml_loaded (self_of env) = Inr ()"
      "guarded env a fs = (Raises KeyboardInterrupt, k, w3)"
      "main env a fs = \<lparr>ret = Inr 130, after = w3, kicked = k\<rparr>"
  | (escaped) e k w3 where "\<not> taken fs" "request_of env a \<noteq> []"
      "validate_crewai_yaml_loaded (self_of env) = Inr ()"
      "guarded env a fs = (Raises e, k, w3)" "e \<noteq> KeyboardInterrupt" "\<not> is_Exception e"
      "main env a fs = \<lparr>ret = Inl e, after = w3, kicked = k\<rparr>"
  | (failed) e k w3 w4 where "\<not> taken fs" "request_of env a \<noteq> []"
      "validate_crewai_yaml_loaded (self_of env) = Inr ()"
      "guarded env a fs = (Raises e, k, w3)" "e \<noteq> KeyboardInterrupt" "is_Exception e"
      "persist_run_summary (err_payload e (request_of env a)) w3 = (None, w4)"
      "main env a fs = \<lparr>ret = Inr 1, after = w4, kicked = k\<rparr>"
  | (failed_unsaved) e k w3 e' w4 where "\<not> taken fs" "request_of env a \<noteq> []"
      "validate_crewai_yaml_loaded (self_of env) = Inr ()"
      "guarded env a fs = (Raises e, k, w3)" "e \<noteq> KeyboardInterrupt" "is_Exception e"
      "persist_run_summary (err_payload e (request_of env a)) w3 = (Some e', w4)"
      "main env a fs = \<lparr>ret = Inl e', after = w4, kicked = k\<rparr>"
  | (returned) x k w3 w4 where "\<not> taken fs" "request_of env a \<noteq> []"
      "validate_crewai_yaml_loaded (self_of env) = Inr ()"
      "guarded env a fs = (Returns x, k, w3)"
      "persist_run_summary (summary (artifacts_resolved fs) a (request_of env a) x) w3 = (None, w4)"
      "main env a fs = \<lparr>ret = Inr 0, after = w4, kicked = k\<rparr>"
  | (returned_unsaved) x k w3 e' w4 where "\<not> taken fs" "request_of env a \<noteq> []"
      "validate_crewai_yaml_loaded (self_of env) = Inr ()"
      "guarded env a fs = (Returns x, k, w3)"
      "persist_run_summary (summary (artifacts_resolved fs) a (request_of env a) x) w3 = (Some e', w4)"
      "main env a fs = \<lparr>ret = Inl e', after = w4, kicked = k\<rparr>"
proof (cases "taken fs")
  case True
  then show ?thesis using blocked by (simp add: main_run)
next
  case nt: False
  show ?thesis
  proof (cases "request_of env a = []")
    case True
    with nt show ?thesis using no_request by (simp add: main_run)
  next
    case nr: False
    show ?thesis
    proof (cases "validate_crewai_yaml_loaded (self_of env)")
      case (Inl e)
      then obtain m where "e = RuntimeError m" using validate_error by blast
      with nt nr Inl show ?thesis using not_loaded[of m] by (simp add: main_run)
    next
      case (Inr u)
      then have v: "validate_crewai_yaml_loaded (self_of env) = Inr ()" by simp
      have m: "main env a fs = conclude a (request_of env a) (guarded env a fs)"
        using nt nr v by (simp add: main_run)
      obtain res k w3 where g: "guarded env a fs = (res, k, w3)"
        by (cases "guarded env a fs")
      have ar: "artifacts_resolved w3 = artifacts_resolved fs"
        using guarded_keeps(3)[OF g] .
      show ?thesis
      proof (cases res)
        case (Returns x)
        obtain r w4 where p: "persist_run_summary
            (summary (artifacts_resolved fs) a (request_of env a) x) w3 = (r, w4)"
          by (cases "persist_run_summary
            (summary (artifacts_resolved fs) a (request_of env a) x) w3")
        show ?thesis
        proof (cases r)
          case None
          with m g Returns p ar have "main env a fs = \<lparr>ret = Inr 0, after = w4, kicked = k\<rparr>"
            by (simp add: conclude_def)
          with nt nr v g Returns p None show ?thesis using returned[of x k w3 w4] by simp
        next
          case (Some e')
          with m g Returns p ar have "main env a fs = \<lparr>ret = Inl e', after = w4, kicked = k\<rparr>"
            by (simp add: conclude_def)
          with nt nr v g Returns p Some show ?thesis
            using returned_unsaved[of x k w3 e' w4] by simp
        qed
      next
        case (Raises e)
        show ?thesis
        proof (cases "e = KeyboardInterrupt")
          case True
          with m g Raises have "main env a fs = \<lparr>ret = Inr 130, after = w3, kicked = k\<rparr>"
            by (simp add: conclude_def)
          with nt nr v g Raises True show ?thesis using interrupted[of k w3] by simp
        next
          case ki: False
          show ?thesis
          proof (cases "is_Exception e")
            case False
            with m g Raises ki have "main env a fs = \<lparr>ret = Inl e, after = w3, kicked = k\<rparr>"
              by (simp add: conclude_def)
            with nt nr v g Raises ki False show ?thesis using escaped[of e k w3] by simp
          next
            case True
            obtain r w4 where p: "persist_run_summary (err_payload e (request_of env a)) w3 = (r, w4)"
              by (cases "persist_run_summary (err_payload e (request_of env a)) w3")
            show ?thesis
            proof (cases r)
              case None
              with m g Raises ki True p
              have "main env a fs = \<lparr>ret = Inr 1, after = w4, kicked = k\<rparr>"
                by (simp add: conclude_def)
              with nt nr v g Raises ki True p None show ?thesis
                using failed[of e k w3 w4] by simp
            next
              case (Some e')
              with m g Raises ki True p
              have "main env a fs = \<lparr>ret = Inl e', after = w4, kicked = k\<rparr>"
                by (simp add: conclude_def)
              with nt nr v g Raises ki True p Some show ?thesis
                using failed_unsaved[of e k w3 e' w4] by simp
            qed
          qed
        qed
      qed
    qed
  qed
qed


lemma summary_file_after:
  "entries w summary_path = Some (File (Some v)) \<Longrightarrow>
   summary_file \<lparr>ret = r, after = w, kicked = k\<rparr> = Some v"
  by (simp add: summary_file_def)


lemma persist_after_guarded:
  assumes "entries fs summary_path \<noteq> Some Dir" "persistable v"
  shows "fst (persist_run_summary v (snd (snd (guarded env a fs)))) = None"
proof -
  obtain res k w3 where g: "guarded env a fs = (res, k, w3)" by (cases "guarded env a fs")
  from guarded_keeps(1,6)[OF g] assms(1)
  have "entries w3 ARTIFACTS_DIR = Some Dir" "entries w3 summary_path \<noteq> Some Dir" by simp_all
  from persist_goes[OF this assms(2)] g show ?thesis by simp
qed

lemma guarded_crew_failed:
  assumes "crew (self_of env) = Inl e"
  shows "guarded env a fs = (Raises e, None, prepared fs)"
  using assms by (simp add: guarded_def call_pipeline_def has_run_def run_def)


lemma kickoff_clock: "kickoff (env\<lparr>now_year := y\<rparr>) = kickoff env"
  by (intro ext) (simp add: kickoff_def)

lemma guarded_clock: "guarded (env\<lparr>now_year := y\<rparr>) a fs = guarded env a fs"
  unfolding guarded_def call_pipeline_def run_def kickoff_clock self_of_def request_of_def
  by (simp add: has_run_def)

lemma self_of_clock: "self_of (env\<lparr>now_year := y\<rparr>) = self_of env"
  by (simp add: self_of_def)

lemma request_of_clock: "request_of (env\<lparr>now_year := y\<rparr>) a = request_of env a"
  by (simp add: request_of_def)

lemma main_clock: "main (env\<lparr>now_year := y\<rparr>) a fs = main env a fs"
  unfolding main_run guarded_clock self_of_clock request_of_clock by (rule refl)

lemma kicked_main:
  "kicked (main env a fs) = None \<or>
   kicked (main env a fs) = Some (run_inputs (request_of env a) (website_name a))"
proof -
  have g: "guarded env a fs = (res, k, w3) \<Longrightarrow>
      k = None \<or> k = Some (run_inputs (request_of env a) (website_name a))" for res k w3
    using guarded_world[of env a fs res k w3] by blast
  show ?thesis
    by (cases rule: main_ends[of fs env a]) (auto dest: g)
qed

lemma main_writes_under:
  "\<forall>y\<in>set (wlog (after (main env a fs))). parent (fst y) = ARTIFACTS_DIR \<and> found_directory y"
proof -
  have p: "guarded env a fs = (res, k, w3) \<Longrightarrow> persist_run_summary v w3 = (r, w4) \<Longrightarrow>
      \<forall>y\<in>set (wlog w4). parent (fst y) = ARTIFACTS_DIR \<and> found_directory y" for res k w3 v r w4
    using guarded_keeps(1,5)[of env a fs res k w3] persist_found[of w3 v r w4]
    by (auto simp: parent_summary_path)
  show ?thesis
  proof (cases rule: main_ends[of fs env a])
    case blocked
    then show ?thesis by (simp add: boot_def)
  next
    case no_request
    then show ?thesis by (simp add: prepared_def)
  next
    case (not_loaded m)
    then show ?thesis by (simp add: prepared_def)
  next
    case (interrupted k w3)
    with guarded_keeps(5)[OF interrupted(4)] show ?thesis by simp
  next
    case (escaped e k w3)
    with guarded_keeps(5)[OF escaped(4)] show ?thesis by simp
  next
    case (failed e k w3 w4)
    with p[OF failed(4,7)] show ?thesis by simp
  next
    case (failed_unsaved e k w3 e' w4)
    with p[OF failed_unsaved(4,7)] show ?thesis by simp
  next
    case (returned x k w3 w4)
    with p[OF returned(4,5)] show ?thesis by simp
  next
    case (returned_unsaved x k w3 e' w4)
    with p[OF returned_unsaved(4,5)] show ?thesis by simp
  qed
qed

lemma main_crew_failed:
  assumes "crew (self_of env) = Inl e"
  shows "kicked (main env a fs) = None"
    and "fst ` set (wlog (after (main env a fs))) \<subseteq> {summary_path}"
    and "validate_crewai_yaml_loaded (self_of env) = Inr () \<Longrightarrow> request_of env a \<noteq> [] \<Longrightarrow>
         usable fs \<Longrightarrow> utf8 (request_of env a) \<Longrightarrow>
         ret (main env a fs) = Inr 1 \<and> wlog (after (main env a fs)) = [(summary_path, None)]"
proof -
  note g = guarded_crew_failed[OF assms, of a fs]
  have w: "persist_run_summary v (prepared fs) = (r, w4) \<Longrightarrow>
      fst ` set (wlog w4) \<subseteq> {summary_path}" for v r w4
    using persist_cases[of v "prepared fs" r w4] by (auto simp: trail_def prepared_def)
  show "kicked (main env a fs) = None"
    by (cases rule: main_ends[of fs env a]) (simp_all add: g)
  show "fst ` set (wlog (after (main env a fs))) \<subseteq> {summary_path}"
  proof (cases rule: main_ends[of fs env a])
    case (failed e k w3 w4)
    with g w[of _ None w4] show ?thesis by simp
  next
    case (failed_unsaved e k w3 e' w4)
    with g w[of _ "Some e'" w4] show ?thesis by simp
  qed (simp_all add: g boot_def prepared_def)
  assume v: "validate_crewai_yaml_loaded (self_of env) = Inr ()" and r: "request_of env a \<noteq> []"
    and u: "usable fs" and t: "utf8 (request_of env a)"
  from crew_error[OF assms] have e: "is_Exception e" "e \<noteq> KeyboardInterrupt" "utf8_exc e"
    by simp_all
  have nd: "entries fs summary_path \<noteq> Some Dir"
    using u summary_in_sinks by (simp add: usable_def list_all_iff)
  have nt: "\<not> taken fs" using u by (simp add: usable_def)
  from persist_after_guarded[OF nd err_payload_persistable[OF e(3) t], of env a] g
  have "fst (persist_run_summary (err_payload e (request_of env a)) (prepared fs)) = None"
    by simp
  then obtain w4 where p: "persist_run_summary (err_payload e (request_of env a)) (prepared fs)
      = (None, w4)"
    by (cases "persist_run_summary (err_payload e (request_of env a)) (prepared fs)") simp
  from persist_saved(1)[OF p] have "wlog w4 = [(summary_path, None)]" by (simp add: prepared_def)
  with p g e nt r v
  show "ret (main env a fs) = Inr 1 \<and> wlog (after (main env a fs)) = [(summary_path, None)]"
    by (simp add: main_run conclude_def)
qed

lemma ret_main_empty:
  "resolve_customer_request (stdin env) (reply env) a = [] \<Longrightarrow>
   ret (main env a fs) =
     (case ensure_artifacts_dir (boot fs) of Inl e \<Rightarrow> Inl e | Inr w \<Rightarrow> Inr 2)"
  by (simp add: main_def split: sum.splits)

lemma main_returned:
  assumes "ret (main env a fs) = Inr 0"
  shows "kicked (main env a fs) = Some (run_inputs (request_of env a) (website_name a))"
    and "\<exists>x. summary_file (main env a fs) =
           Some (summary (artifacts_resolved fs) a (request_of env a) x)"
proof -
  have "kicked (main env a fs) = Some (run_inputs (request_of env a) (website_name a)) \<and>
     (\<exists>x. summary_file (main env a fs) =
           Some (summary (artifacts_resolved fs) a (request_of env a) x))"
  proof (cases rule: main_ends[of fs env a])
    case (returned x k w3 w4)
    from guarded_world[OF returned(4)]
    have "k = Some (run_inputs (request_of env a) (website_name a))" by auto
    with persist_saved(2)[OF returned(5)] returned(6) show ?thesis
      by (auto simp: summary_file_after)
  qed (use assms in simp_all)
  then show "kicked (main env a fs) = Some (run_inputs (request_of env a) (website_name a))"
    and "\<exists>x. summary_file (main env a fs) =
           Some (summary (artifacts_resolved fs) a (request_of env a) x)"
    by simp_all
qed

section \<open>The sample environment\<close>


lemma sample_agents_ok: "\<exists>ags. instantiate crew_agents (self_of (sample_env sin r res)) = Inr ags"
  by (simp add: self_of_def sample_env_def sample_config_def crew_agents_def agent_methods
      Agent_def get_def)

lemma sample_tasks_ok: "\<exists>tks. instantiate crew_tasks (self_of (sample_env sin r res)) = Inr tks"
  by (simp add: self_of_def sample_env_def sample_config_def crew_tasks_def task_methods
      Task_def get_def)

lemma sample_crew: "\<exists>c. crew (self_of (sample_env sin r res)) = Inr c"
proof -
  obtain ags where a: "instantiate crew_agents (self_of (sample_env sin r res)) = Inr ags"
    using sample_agents_ok by blast
  obtain tks where t: "instantiate crew_tasks (self_of (sample_env sin r res)) = Inr tks"
    using sample_tasks_ok by blast
  from manager_found[OF a] obtain m where "map_of ags ''team_leader'' = Some m" by blast
  with a t show ?thesis by (simp add: crew_def)
qed

lemmas eval_text = str_def strip_def lstrip_def rstrip_def isspace_def CR_def LF_def blank_def
  stdin_text_def ask_customer_request_def stdin_or_prompt_def resolve_customer_request_def
  flag_absent_def data_present_def sample_args_def trimmed_def

lemmas eval_run = Let_def sample_env_def sample_args_def empty_fs_def file_fs_def
  sample_config_def eval_text boot_def ensure_artifacts_dir_def mkdir_def ARTIFACTS_DIR_def
  WebsiteCreator_def ensure_dir_def path_exists_def validate_crewai_yaml_loaded_def is_dict_def
  call_pipeline_def has_run_def run_def run_inputs_def crew_def crew_agents_def crew_tasks_def
  agent_methods task_methods Agent_def Task_def get_def kickoff_def write_file_def
  write_text_def open_w_def parent_def persist_run_summary_def summary_path_def or_default_def
  placeholder_def conclude_def summary_def err_payload_def utf8_def utf8_exc_def surrogate_def
  is_Exception_def planner_task_kwargs_def self_of_def request_of_def prepared_def
  build_inputs_def

lemmas eval_main = main_def eval_run


lemmas eval_reads = name_in_inputs_def name_in_summary_def summary_file_def

section \<open>The claims\<close>

subsection \<open>C1: the run summary\<close>




subsection \<open>C2: the priority of the sources of the request\<close>

text \<open>
  Claim C2. The request is the stripped flag when the flag is given and not blank;
  otherwise the normalised content of the input stream when that holds data; otherwise,
  without \<open>--no-prompt\<close>, what the prompt gives; and with \<open>--no-prompt\<close> it is empty,
  and \<open>main\<close> returns 2 once \<open>_ensure_artifacts_dir\<close> has returned.
\<close>

theorem C2_request_priority:
  "(\<forall>req. customer_request a = Some req \<and> \<not> blank req \<longrightarrow>
       resolve_customer_request (stdin env) (reply env) a = strip req) \<and>
   (flag_absent a \<and> data_present (stdin env) \<longrightarrow>
       resolve_customer_request (stdin env) (reply env) a = stdin_text (stdin env)) \<and>
   (flag_absent a \<and> \<not> data_present (stdin env) \<and> \<not> no_prompt a \<longrightarrow>
       resolve_customer_request (stdin env) (reply env) a = ask_customer_request (reply env)) \<and>
   (flag_absent a \<and> \<not> data_present (stdin env) \<and> no_prompt a \<longrightarrow>
       resolve_customer_request (stdin env) (reply env) a = [] \<and>
       ret (main env a fs) =
         (case ensure_artifacts_dir (boot fs) of Inl e \<Rightarrow> Inl e | Inr w \<Rightarrow> Inr 2))"
proof (intro conjI allI impI)
  fix req assume "customer_request a = Some req \<and> \<not> blank req"
  then show "resolve_customer_request (stdin env) (reply env) a = strip req"
    by (simp add: resolve_flag)
next
  assume "flag_absent a \<and> data_present (stdin env)"
  then show "resolve_customer_request (stdin env) (reply env) a = stdin_text (stdin env)"
    using stdin_text_Nil_iff[of "stdin env"]
    by (simp add: resolve_no_flag stdin_or_prompt_def Let_def)
next
  assume "flag_absent a \<and> \<not> data_present (stdin env) \<and> \<not> no_prompt a"
  then show "resolve_customer_request (stdin env) (reply env) a = ask_customer_request (reply env)"
    using stdin_text_Nil_iff[of "stdin env"]
    by (simp add: resolve_no_flag stdin_or_prompt_def Let_def)
next
  assume h: "flag_absent a \<and> \<not> data_present (stdin env) \<and> no_prompt a"
  then show e: "resolve_customer_request (stdin env) (reply env) a = []"
    using stdin_text_Nil_iff[of "stdin env"]
    by (simp add: resolve_no_flag stdin_or_prompt_def Let_def)
  show "ret (main env a fs) =
         (case ensure_artifacts_dir (boot fs) of Inl e \<Rightarrow> Inl e | Inr w \<Rightarrow> Inr 2)"
    using e by (rule ret_main_empty)
qed

text \<open>
  One input for each of the four cases: the flag wins over the pipe, a blank flag gives
  way to the pipe, the prompt is asked last, and \<open>--no-prompt\<close> ends with exit code 2;
  and the last case again where \<open>artifacts\<close> is a regular file and
  \<open>_ensure_artifacts_dir\<close> raises.
\<close>

theorem C2_witness:
  "resolve_customer_request (Piped (str ''from the pipe'')) (Line (str ''typed'')) 
      (sample_args (Some (str '' shop '')) None False) = str ''shop'' \<and>
   resolve_customer_request (Piped (str ''from the pipe'' @ [LF])) (Line (str ''typed''))
      (sample_args (Some (str ''  '')) None False) = str ''from the pipe'' \<and>
   resolve_customer_request Tty (Line (str ''typed'')) (sample_args None None False) = str ''typed'' \<and>
   resolve_customer_request (Piped [LF]) (Line (str ''typed'')) (sample_args None None True) = [] \<and>
   ret (main (sample_env (Piped [LF]) (Line (str ''typed'')) (Returns JNull))
      (sample_args None None True) empty_fs) = Inr 2 \<and>
   ret (main (sample_env (Piped [LF]) (Line (str ''typed'')) (Returns JNull))
      (sample_args None None True) file_fs) = Inl (FileExistsError ''artifacts'')"
proof -
  have s: "stdin (sample_env sin rp res) = sin" "reply (sample_env sin rp res) = rp" for sin rp res
    by (simp_all add: sample_env_def)
  have e: "ensure_artifacts_dir (boot empty_fs) = Inr (prepared empty_fs)"
    "ensure_artifacts_dir (boot file_fs) = Inl (FileExistsError ''artifacts'')"
    by (simp_all add: ensure_artifacts_dir_def mkdir_def boot_def empty_fs_def file_fs_def
        ARTIFACTS_DIR_def prepared_def)
  show ?thesis
    using
      C2_request_priority[of "sample_args (Some (str '' shop '')) None False"
        "sample_env (Piped (str ''from the pipe'')) (Line (str ''typed'')) (Returns JNull)" empty_fs]
      C2_request_priority[of "sample_args (Some (str ''  '')) None False"
        "sample_env (Piped (str ''from the pipe'' @ [LF])) (Line (str ''typed'')) (Returns JNull)" empty_fs]
      C2_request_priority[of "sample_args None None False"
        "sample_env Tty (Line (str ''typed'')) (Returns JNull)" empty_fs]
      C2_request_priority[of "sample_args None None True"
        "sample_env (Piped [LF]) (Line (str ''typed'')) (Returns JNull)" empty_fs]
      C2_request_priority[of "sample_args None None True"
        "sample_env (Piped [LF]) (Line (str ''typed'')) (Returns JNull)" file_fs]
    unfolding s e
    by (simp add: eval_text)
qed

subsection \<open>C3: the exit codes\<close>




subsection \<open>C4: references between tasks\<close>

text \<open>
  Claim C4. Every reference \<open><task-id>.output\<close> in the context of a declared task names
  a task declared strictly before it, the relation "refers to the output of" has no cycle,
  and the tasks that \<open>crew\<close> builds carry these declarations in this order.
\<close>

theorem C4_references_point_backwards:
  "(\<forall>i<length declared_tasks. \<forall>u\<in>set (refs (snd (declared_tasks ! i))).
      \<exists>j<i. fst (declared_tasks ! j) = u) \<and>
   acyclic depends_on \<and>
   (\<forall>c. crew self = Inr c \<longrightarrow> map (\<lambda>nt. (fst nt, snd (snd nt))) (tasks c) = declared_tasks)"
  using declared_refs_backwards depends_on_acyclic crew_tasks_declared by blast

text \<open>
  The backend task, fourth in the list, refers to the frontend task, third in the list.
\<close>

theorem C4_witness:
  "(3::nat) < length declared_tasks \<and>
   fst (declared_tasks ! 3) = ''backend_developer_task'' \<and>
   ''frontend_developer_task'' \<in> set (refs (snd (declared_tasks ! 3))) \<and>
   (\<exists>j<3. fst (declared_tasks ! j) = ''frontend_developer_task'')"
proof -
  have 1: "(3::nat) < length declared_tasks" by (simp add: declared_tasks_def)
  have 2: "declared_tasks ! 3 = (''backend_developer_task'', backend_developer_task_kwargs)"
    by (simp add: declared_tasks_def)
  have 3: "''frontend_developer_task'' \<in> set (refs (snd (declared_tasks ! 3)))"
    by (simp add: 2 refs_values)
  from C4_references_point_backwards[of "self_of (sample_env Tty EOFError (Returns JNull))"] 1 3
  have "\<exists>j<3. fst (declared_tasks ! j) = ''frontend_developer_task''" by blast
  with 1 2 3 show ?thesis by simp
qed

subsection \<open>C5: the directory exists before any write\<close>

text \<open>
  Claim C5 fails on \<open>_ensure_dir\<close>. In a working directory where \<open>artifacts\<close> is a
  regular file, \<open>Path.exists()\<close> holds of it, so the constructor of the crew object
  makes no directory and raises nothing; \<open>run\<close> then lets the library write
  \<open>artifacts/planner.json\<close>, and this write does not find the directory. The sibling
  \<open>_ensure_artifacts_dir\<close> of main.py calls \<open>mkdir\<close> without the test and raises
  \<open>FileExistsError\<close> there, so a run of \<open>main\<close> attempts no write.
\<close>

theorem C5_regular_file_named_artifacts:
  "entries (boot file_fs) ''artifacts'' = Some (File (Some (JStr (str ''notes'')))) \<and>
   WebsiteCreator (sample_env Tty EOFError (Returns JNull)) (boot file_fs) =
     Inr (self_of (sample_env Tty EOFError (Returns JNull)), boot file_fs) \<and>
   fst (run (sample_env Tty EOFError (Returns JNull))
          (self_of (sample_env Tty EOFError (Returns JNull))) (str ''shop'') None (boot file_fs)) =
     Raises (NotADirectoryError ''artifacts/planner.json'') \<and>
   wlog (snd (snd (run (sample_env Tty EOFError (Returns JNull))
          (self_of (sample_env Tty EOFError (Returns JNull))) (str ''shop'') None (boot file_fs)))) =
     [(''artifacts/planner.json'', Some (NotADirectoryError ''artifacts/planner.json''))] \<and>
   \<not> found_directory
       (''artifacts/planner.json'', Some (NotADirectoryError ''artifacts/planner.json'')) \<and>
   entries (snd (snd (run (sample_env Tty EOFError (Returns JNull))
          (self_of (sample_env Tty EOFError (Returns JNull))) (str ''shop'') None (boot file_fs))))
     ''artifacts'' \<noteq> Some Dir \<and>
   ensure_artifacts_dir (boot file_fs) = Inl (FileExistsError ''artifacts'') \<and>
   wlog (after (main (sample_env Tty EOFError (Returns JNull))
          (sample_args (Some (str ''shop'')) None False) file_fs)) = []"
  by (simp add: eval_main found_directory_def)

subsection \<open>C6: missing configuration\<close>

text \<open>
  Claim C6. With both configurations loaded as mappings, the constructor of an agent or
  a task whose entry is missing or is not a dictionary fails with the \<open>KeyError\<close> whose
  message names the kind and the key. If there is such an entry, \<open>crew\<close> fails with the
  error of one of them, \<open>run\<close> raises it without a call of \<open>kickoff\<close> and without a
  change of the file system, and a run of \<open>main\<close> does not start the pipeline and
  attempts no write but that of the summary. On a usable file system and with a request
  that the codec accepts, \<open>main\<close> then returns 1 with the summary as its only write.
\<close>

theorem C6_missing_configuration:
  "agents_config self = YDict da \<and> tasks_config self = YDict dt \<longrightarrow>
     (\<forall>nm\<in>set crew_agents. unusable da (fst nm) \<longrightarrow>
        snd nm self = Inl (KeyError (missing ''agent'' (fst nm)))) \<and>
     (\<forall>nm\<in>set crew_tasks. unusable dt (fst nm) \<longrightarrow>
        snd nm self = Inl (KeyError (missing ''task'' (fst nm)))) \<and>
     ((\<exists>nm\<in>set crew_agents. unusable da (fst nm)) \<or>
      (\<exists>nm\<in>set crew_tasks. unusable dt (fst nm)) \<longrightarrow>
        (\<exists>kind key.
           (kind = ''agent'' \<and> unusable da key \<or> kind = ''task'' \<and> unusable dt key) \<and>
           crew self = Inl (KeyError (missing kind key)) \<and>
           run env self request name w = (Raises (KeyError (missing kind key)), None, w) \<and>
           (self = self_of env \<longrightarrow>
              kicked (main env a fs) = None \<and>
              fst ` set (wlog (after (main env a fs))) \<subseteq> {summary_path}) \<and>
           (self = self_of env \<and> request_of env a \<noteq> [] \<and> usable fs \<and>
            utf8 (request_of env a) \<longrightarrow>
              ret (main env a fs) = Inr 1 \<and> kicked (main env a fs) = None \<and>
              wlog (after (main env a fs)) = [(summary_path, None)])))"
proof (intro impI conjI ballI)
  assume cfg: "agents_config self = YDict da \<and> tasks_config self = YDict dt"
  {
    fix nm assume "nm \<in> set crew_agents" "unusable da (fst nm)"
    then show "snd nm self = Inl (KeyError (missing ''agent'' (fst nm)))"
      using cfg by (intro agent_method_get) (simp_all add: get_unusable)
  }
  note agents = this
  {
    fix nm assume "nm \<in> set crew_tasks" "unusable dt (fst nm)"
    then show "snd nm self = Inl (KeyError (missing ''task'' (fst nm)))"
      using cfg by (intro task_method_get) (simp_all add: get_unusable)
  }
  note tasks = this
  assume "(\<exists>nm\<in>set crew_agents. unusable da (fst nm)) \<or>
      (\<exists>nm\<in>set crew_tasks. unusable dt (fst nm))"
  with agents tasks have "(\<exists>nm\<in>set crew_agents. \<exists>e. snd nm self = Inl e) \<or>
           (\<exists>nm\<in>set crew_tasks. \<exists>e. snd nm self = Inl e)"
    by blast
  then obtain e where e: "crew self = Inl e" using crew_fails by blast
  from crew_Inl[OF e] cfg obtain kind key where
    k: "kind = ''agent'' \<and> unusable da key \<or> kind = ''task'' \<and> unusable dt key"
    and m: "e = KeyError (missing kind key)"
    using get_dict_error by fastforce
  have 1: "self = self_of env \<longrightarrow>
              kicked (main env a fs) = None \<and>
              fst ` set (wlog (after (main env a fs))) \<subseteq> {summary_path}"
    using main_crew_failed(1,2)[of env e a fs] e by blast
  have 2: "self = self_of env \<and> request_of env a \<noteq> [] \<and> usable fs \<and>
            utf8 (request_of env a) \<longrightarrow>
              ret (main env a fs) = Inr 1 \<and> kicked (main env a fs) = None \<and>
              wlog (after (main env a fs)) = [(summary_path, None)]"
  proof
    assume h: "self = self_of env \<and> request_of env a \<noteq> [] \<and> usable fs \<and>
            utf8 (request_of env a)"
    have v: "validate_crewai_yaml_loaded (self_of env) = Inr ()"
      using cfg h by (simp add: validate_crewai_yaml_loaded_def is_dict_def)
    from main_crew_failed(1)[of env e a fs] main_crew_failed(3)[of env e a fs, OF _ v] e h
    show "ret (main env a fs) = Inr 1 \<and> kicked (main env a fs) = None \<and>
          wlog (after (main env a fs)) = [(summary_path, None)]"
      by simp
  qed
  from k m e run_crew_failed[OF e] 1 2
  show "\<exists>kind key.
           (kind = ''agent'' \<and> unusable da key \<or> kind = ''task'' \<and> unusable dt key) \<and>
           crew self = Inl (KeyError (missing kind key)) \<and>
           run env self request name w = (Raises (KeyError (missing kind key)), None, w) \<and>
           (self = self_of env \<longrightarrow>
              kicked (main env a fs) = None \<and>
              fst ` set (wlog (after (main env a fs))) \<subseteq> {summary_path}) \<and>
           (self = self_of env \<and> request_of env a \<noteq> [] \<and> usable fs \<and>
            utf8 (request_of env a) \<longrightarrow>
              ret (main env a fs) = Inr 1 \<and> kicked (main env a fs) = None \<and>
              wlog (after (main env a fs)) = [(summary_path, None)])"
    by blast
qed

text \<open>
  An entry that is a text, and an entry that is missing.
\<close>

theorem C6_witness:
  "planner broken_self = Inl (KeyError (missing ''agent'' ''planner'')) \<and>
   team_leader broken_self = Inl (KeyError (missing ''agent'' ''team_leader'')) \<and>
   missing ''agent'' ''team_leader'' =
     ''Missing agent config for '' @ [CHR 0x27] @ ''team_leader'' @ [CHR 0x27] @ ''. Check your YAML.'' \<and>
   (\<exists>kind key. run (sample_env Tty EOFError (Returns JNull)) broken_self (str ''shop'') None
       (boot empty_fs) = (Raises (KeyError (missing kind key)), None, boot empty_fs)) \<and>
   ret (main ((sample_env Tty EOFError (Returns JNull))
          \<lparr>loaded_agents := YDict [(''planner'', YStr (str ''a planner''))]\<rparr>)
        (sample_args (Some (str ''shop'')) None False) empty_fs) = Inr 1 \<and>
   kicked (main ((sample_env Tty EOFError (Returns JNull))
          \<lparr>loaded_agents := YDict [(''planner'', YStr (str ''a planner''))]\<rparr>)
        (sample_args (Some (str ''shop'')) None False) empty_fs) = None \<and>
   wlog (after (main ((sample_env Tty EOFError (Returns JNull))
          \<lparr>loaded_agents := YDict [(''planner'', YStr (str ''a planner''))]\<rparr>)
        (sample_args (Some (str ''shop'')) None False) empty_fs)) =
     [(''artifacts/run_summary.json'', None)]"
proof -
  let ?env = "(sample_env Tty EOFError (Returns JNull))
          \<lparr>loaded_agents := YDict [(''planner'', YStr (str ''a planner''))]\<rparr>"
  let ?a = "sample_args (Some (str ''shop'')) None False"
  have c: "agents_config broken_self = YDict [(''planner'', YStr (str ''a planner''))] \<and>
      tasks_config broken_self = YDict (map (\<lambda>nm. (fst nm, YDict [])) crew_tasks)"
    by (simp add: broken_self_def sample_config_def)
  have m: "(''planner'', planner) \<in> set crew_agents" "(''team_leader'', team_leader) \<in> set crew_agents"
    by (simp_all add: crew_agents_def)
  have u: "unusable [(''planner'', YStr (str ''a planner''))] ''planner''"
    "unusable [(''planner'', YStr (str ''a planner''))] ''team_leader''"
    by (simp_all add: unusable_def)
  have s: "broken_self = self_of ?env"
    by (simp add: broken_self_def self_of_def sample_env_def)
  have r: "request_of ?env ?a \<noteq> []" "utf8 (request_of ?env ?a)"
    by (simp_all add: request_of_def sample_env_def utf8_def surrogate_def eval_text)
  have f: "usable empty_fs"
    by (simp add: usable_def taken_def empty_fs_def list_all_iff)
  note t = C6_missing_configuration[where self = broken_self
      and da = "[(''planner'', YStr (str ''a planner''))]"
      and dt = "map (\<lambda>nm. (fst nm, YDict [])) crew_tasks"
      and request = "str ''shop''" and name = None and w = "boot empty_fs"
      and a = ?a and fs = empty_fs and env = ?env, THEN mp, OF c]
  note t' = C6_missing_configuration[where self = broken_self
      and da = "[(''planner'', YStr (str ''a planner''))]"
      and dt = "map (\<lambda>nm. (fst nm, YDict [])) crew_tasks"
      and request = "str ''shop''" and name = None and w = "boot empty_fs"
      and a = ?a and fs = empty_fs and env = "sample_env Tty EOFError (Returns JNull)",
      THEN mp, OF c]
  note agents = t[THEN conjunct1, THEN bspec, THEN mp]
  have p: "planner broken_self = Inl (KeyError (missing ''agent'' ''planner''))"
    using agents[OF m(1)] u(1) by simp
  have l: "team_leader broken_self = Inl (KeyError (missing ''agent'' ''team_leader''))"
    using agents[OF m(2)] u(2) by simp
  have x: "(\<exists>nm\<in>set crew_agents. unusable [(''planner'', YStr (str ''a planner''))] (fst nm)) \<or>
      (\<exists>nm\<in>set crew_tasks. unusable (map (\<lambda>nm. (fst nm, YDict [])) crew_tasks) (fst nm))"
    using m(1) u(1) by force
  note rest = t[THEN conjunct2, THEN conjunct2, THEN mp, OF x]
  from t'[THEN conjunct2, THEN conjunct2, THEN mp, OF x]
  have 1: "\<exists>kind key. run (sample_env Tty EOFError (Returns JNull)) broken_self (str ''shop'') None
       (boot empty_fs) = (Raises (KeyError (missing kind key)), None, boot empty_fs)"
    by blast
  from rest obtain kind key where
    "broken_self = self_of ?env \<and> request_of ?env ?a \<noteq> [] \<and> usable empty_fs \<and>
       utf8 (request_of ?env ?a) \<longrightarrow>
     ret (main ?env ?a empty_fs) = Inr 1 \<and> kicked (main ?env ?a empty_fs) = None \<and>
     wlog (after (main ?env ?a empty_fs)) = [(summary_path, None)]"
    by blast
  with s r f
  have 2: "ret (main ?env ?a empty_fs) = Inr 1 \<and> kicked (main ?env ?a empty_fs) = None \<and>
      wlog (after (main ?env ?a empty_fs)) = [(summary_path, None)]"
    by blast
  from p l 1 2 show ?thesis by (simp add: missing_def summary_path_def ARTIFACTS_DIR_def)
qed

subsection \<open>C7: the output sinks\<close>

text \<open>
  Claim C7. The output file of every declared task lies directly under \<open>artifacts\<close>,
  and its extension is \<open>.json\<close> exactly when the task enforces a JSON schema; the tasks
  that \<open>crew\<close> builds carry these declarations. \<open>_persist_run_summary\<close>, when it
  returns, has written its payload to \<open>artifacts/run_summary.json\<close> and changed no other
  path, and it returns whenever the directory is there, the path is not a directory and
  the payload can be dumped and encoded. A run of \<open>main\<close> that returns 0 or 1 has written
  the summary there, and every write of a run is to a path directly under \<open>artifacts\<close>.
\<close>

theorem C7_output_sinks:
  "(\<forall>nk\<in>set declared_tasks.
      parent (output_file (snd nk)) = ARTIFACTS_DIR \<and>
      (extension (output_file (snd nk)) = ''.json'' \<longleftrightarrow> enforce_json_schema (snd nk))) \<and>
   ARTIFACTS_DIR = ''artifacts'' \<and>
   summary_path = ''artifacts/run_summary.json'' \<and>
   (\<forall>c. crew self = Inr c \<longrightarrow> map (\<lambda>nt. (fst nt, snd (snd nt))) (tasks c) = declared_tasks) \<and>
   (\<forall>w'. persist_run_summary v w = (None, w') \<longrightarrow>
      entries w' summary_path = Some (File (Some v)) \<and>
      (\<forall>q. q \<noteq> summary_path \<longrightarrow> entries w' q = entries w q) \<and>
      wlog w' = wlog w @ [(summary_path, None)]) \<and>
   (entries w ARTIFACTS_DIR = Some Dir \<and> entries w summary_path \<noteq> Some Dir \<and> persistable v \<longrightarrow>
      fst (persist_run_summary v w) = None) \<and>
   (ret (main env a fs) = Inr 0 \<or> ret (main env a fs) = Inr 1 \<longrightarrow>
      (\<exists>p. summary_file (main env a fs) = Some p) \<and>
      (summary_path, None) \<in> set (wlog (after (main env a fs)))) \<and>
   (\<forall>y\<in>set (wlog (after (main env a fs))). parent (fst y) = ARTIFACTS_DIR)"
proof -
  have 1: "\<forall>w'. persist_run_summary v w = (None, w') \<longrightarrow>
      entries w' summary_path = Some (File (Some v)) \<and>
      (\<forall>q. q \<noteq> summary_path \<longrightarrow> entries w' q = entries w q) \<and>
      wlog w' = wlog w @ [(summary_path, None)]"
    using persist_saved(1,2) persist_only_summary by blast
  have 2: "entries w ARTIFACTS_DIR = Some Dir \<and> entries w summary_path \<noteq> Some Dir \<and>
      persistable v \<longrightarrow> fst (persist_run_summary v w) = None"
    using persist_goes by blast
  have 3: "ret (main env a fs) = Inr 0 \<or> ret (main env a fs) = Inr 1 \<longrightarrow>
      (\<exists>p. summary_file (main env a fs) = Some p) \<and>
      (summary_path, None) \<in> set (wlog (after (main env a fs)))"
  proof (cases rule: main_ends[of fs env a])
    case (failed e k w3 w4)
    from persist_saved(1,2)[OF failed(7)] failed(8) show ?thesis
      by (simp add: summary_file_after)
  next
    case (returned x k w3 w4)
    from persist_saved(1,2)[OF returned(5)] returned(6) show ?thesis
      by (simp add: summary_file_after)
  qed simp_all
  have 4: "\<forall>y\<in>set (wlog (after (main env a fs))). parent (fst y) = ARTIFACTS_DIR"
    using main_writes_under[of env a fs] by blast
  have 5: "ARTIFACTS_DIR = ''artifacts''" "summary_path = ''artifacts/run_summary.json''"
    by (simp_all add: summary_path_def ARTIFACTS_DIR_def)
  from declared_sinks crew_tasks_declared 1 2 3 4 5 show ?thesis by blast
qed

text \<open>
  The blueprint of the team leader is the narrative one; the plan is structured. A payload
  persisted in the prepared empty directory, and the summary of a run that returns 0.
\<close>

theorem C7_witness:
  "(''team_leader_task'', team_leader_task_kwargs) \<in> set declared_tasks \<and>
   output_file team_leader_task_kwargs = ''artifacts/blueprint.md'' \<and>
   parent (output_file team_leader_task_kwargs) = ''artifacts'' \<and>
   extension (output_file team_leader_task_kwargs) \<noteq> ''.json'' \<and>
   \<not> enforce_json_schema team_leader_task_kwargs \<and>
   (''planner_task'', planner_task_kwargs) \<in> set declared_tasks \<and>
   extension (output_file planner_task_kwargs) = ''.json'' \<and>
   enforce_json_schema planner_task_kwargs \<and>
   fst (persist_run_summary (JBool True) (prepared empty_fs)) = None \<and>
   entries (snd (persist_run_summary (JBool True) (prepared empty_fs)))
     ''artifacts/run_summary.json'' = Some (File (Some (JBool True))) \<and>
   ret (main (sample_env Tty EOFError (Returns JNull))
      (sample_args (Some (str ''shop'')) None False) empty_fs) = Inr 0 \<and>
   summary_file (main (sample_env Tty EOFError (Returns JNull))
      (sample_args (Some (str ''shop'')) None False) empty_fs) \<noteq> None"
proof -
  let ?e = "sample_env Tty EOFError (Returns JNull)"
  let ?a = "sample_args (Some (str ''shop'')) None False"
  note t = C7_output_sinks[where v = "JBool True" and w = "prepared empty_fs"
      and self = "self_of ?e" and env = ?e and a = ?a and fs = empty_fs]
  have 1: "(''team_leader_task'', team_leader_task_kwargs) \<in> set declared_tasks"
    and 2: "(''planner_task'', planner_task_kwargs) \<in> set declared_tasks"
    by (simp_all add: declared_tasks_def)
  have 3: "output_file team_leader_task_kwargs = ''artifacts/blueprint.md''"
    and 4: "\<not> enforce_json_schema team_leader_task_kwargs"
    and 5: "enforce_json_schema planner_task_kwargs"
    by (simp_all add: team_leader_task_kwargs_def planner_task_kwargs_def)
  note sink = t[THEN conjunct1, THEN bspec]
  from sink[OF 1] sink[OF 2] 4 5
  have 6: "parent (output_file team_leader_task_kwargs) = ''artifacts'' \<and>
     extension (output_file team_leader_task_kwargs) \<noteq> ''.json'' \<and>
     extension (output_file planner_task_kwargs) = ''.json''"
    by (simp add: ARTIFACTS_DIR_def)
  have h: "entries (prepared empty_fs) ARTIFACTS_DIR = Some Dir \<and>
    entries (prepared empty_fs) summary_path \<noteq> Some Dir \<and> persistable (JBool True)"
    by (simp add: prepared_def empty_fs_def summary_path_def ARTIFACTS_DIR_def
        persistable_def)
  note goes = t[THEN conjunct2, THEN conjunct2, THEN conjunct2, THEN conjunct2, THEN conjunct2,
      THEN conjunct1, THEN mp]
  note kept = t[THEN conjunct2, THEN conjunct2, THEN conjunct2, THEN conjunct2, THEN conjunct1,
      THEN spec, THEN mp]
  note ends = t[THEN conjunct2, THEN conjunct2, THEN conjunct2, THEN conjunct2, THEN conjunct2,
      THEN conjunct2, THEN conjunct1, THEN mp]
  from goes[OF h] have 7: "fst (persist_run_summary (JBool True) (prepared empty_fs)) = None" .
  then obtain w' where w: "persist_run_summary (JBool True) (prepared empty_fs) = (None, w')"
    by (cases "persist_run_summary (JBool True) (prepared empty_fs)") simp
  from kept[OF w] have "entries w' summary_path = Some (File (Some (JBool True)))" by simp
  with w have 8: "entries (snd (persist_run_summary (JBool True) (prepared empty_fs)))
     ''artifacts/run_summary.json'' = Some (File (Some (JBool True)))"
    by (simp add: summary_path_def ARTIFACTS_DIR_def)
  have 9: "ret (main ?e ?a empty_fs) = Inr 0" by (simp add: eval_main)
  from ends 9 have 10: "summary_file (main ?e ?a empty_fs) \<noteq> None" by auto
  from 1 2 3 4 5 6 7 8 9 10 show ?thesis by simp
qed

subsection \<open>C8: the website name\<close>

text \<open>
  Read as it stands, the claim uses every supplied name as it is. The empty name, as
  \<open>--website-name ""\<close> supplies it, is replaced by the placeholder in both places.
\<close>

theorem C8_counterexample:
  "name_in_inputs (main (sample_env Tty EOFError (Returns JNull))
      (sample_args (Some (str ''shop'')) (Some []) False) empty_fs) = Some (str ''Generated Website'') \<and>
   name_in_summary (main (sample_env Tty EOFError (Returns JNull))
      (sample_args (Some (str ''shop'')) (Some []) False) empty_fs) = Some (str ''Generated Website'') \<and>
   str ''Generated Website'' \<noteq> []"
  by (simp add: eval_main eval_reads)

text \<open>
  Claim C8, as the code has it. The name used is the placeholder \<open>Generated Website\<close>
  when no name or the empty name is supplied, and the supplied name otherwise. Whenever the
  pipeline is started its inputs hold the name used, and a run that returns 0 has recorded
  the same name in the summary.
\<close>

theorem C8_website_name:
  "(kicked (main env a fs) = None \<or>
      name_in_inputs (main env a fs) = Some (or_default (website_name a) placeholder)) \<and>
   (ret (main env a fs) = Inr 0 \<longrightarrow>
      name_in_inputs (main env a fs) = Some (or_default (website_name a) placeholder) \<and>
      name_in_summary (main env a fs) = Some (or_default (website_name a) placeholder)) \<and>
   (website_name a = None \<or> website_name a = Some [] \<longrightarrow>
      or_default (website_name a) placeholder = placeholder) \<and>
   (\<forall>n. website_name a = Some n \<and> n \<noteq> [] \<longrightarrow> or_default (website_name a) placeholder = n) \<and>
   placeholder = str ''Generated Website''"
proof -
  have 1: "kicked (main env a fs) = None \<or>
      name_in_inputs (main env a fs) = Some (or_default (website_name a) placeholder)"
    using kicked_main[of env a fs] by (auto simp: name_in_inputs_def run_inputs_def)
  have 2: "ret (main env a fs) = Inr 0 \<longrightarrow>
      name_in_inputs (main env a fs) = Some (or_default (website_name a) placeholder) \<and>
      name_in_summary (main env a fs) = Some (or_default (website_name a) placeholder)"
  proof
    assume r: "ret (main env a fs) = Inr 0"
    from main_returned[OF r] obtain x where
      k: "kicked (main env a fs) = Some (run_inputs (request_of env a) (website_name a))"
      and s: "summary_file (main env a fs) =
           Some (summary (artifacts_resolved fs) a (request_of env a) x)"
      by blast
    have "name_in_inputs (main env a fs) = Some (or_default (website_name a) placeholder)"
      using k by (simp add: name_in_inputs_def run_inputs_def)
    moreover have "name_in_summary (main env a fs) =
        Some (or_default (website_name a) placeholder)"
      using s by (simp add: name_in_summary_def summary_def str_def)
    ultimately show "name_in_inputs (main env a fs) =
        Some (or_default (website_name a) placeholder) \<and>
      name_in_summary (main env a fs) = Some (or_default (website_name a) placeholder)"
      by simp
  qed
  have 3: "website_name a = None \<or> website_name a = Some [] \<longrightarrow>
      or_default (website_name a) placeholder = placeholder"
    by (auto simp: or_default_cases)
  have 4: "\<forall>n. website_name a = Some n \<and> n \<noteq> [] \<longrightarrow> or_default (website_name a) placeholder = n"
    by (auto simp: or_default_cases)
  from 1 2 3 4 show ?thesis by (simp add: placeholder_def)
qed

text \<open>
  A run without a name and a run with the name \<open>Acme\<close>.
\<close>

theorem C8_witness:
  "ret (main (sample_env Tty EOFError (Returns JNull))
      (sample_args (Some (str ''shop'')) None False) empty_fs) = Inr 0 \<and>
   name_in_inputs (main (sample_env Tty EOFError (Returns JNull))
      (sample_args (Some (str ''shop'')) None False) empty_fs) = Some (str ''Generated Website'') \<and>
   name_in_summary (main (sample_env Tty EOFError (Returns JNull))
      (sample_args (Some (str ''shop'')) None False) empty_fs) = Some (str ''Generated Website'') \<and>
   ret (main (sample_env Tty EOFError (Returns JNull))
      (sample_args (Some (str ''shop'')) (Some (str ''Acme'')) False) empty_fs) = Inr 0 \<and>
   name_in_inputs (main (sample_env Tty EOFError (Returns JNull))
      (sample_args (Some (str ''shop'')) (Some (str ''Acme'')) False) empty_fs) = Some (str ''Acme'') \<and>
   name_in_summary (main (sample_env Tty EOFError (Returns JNull))
      (sample_args (Some (str ''shop'')) (Some (str ''Acme'')) False) empty_fs) = Some (str ''Acme'')"
proof -
  have 1: "ret (main (sample_env Tty EOFError (Returns JNull))
      (sample_args (Some (str ''shop'')) None False) empty_fs) = Inr 0"
    by (simp add: eval_main)
  have 2: "ret (main (sample_env Tty EOFError (Returns JNull))
      (sample_args (Some (str ''shop'')) (Some (str ''Acme'')) False) empty_fs) = Inr 0"
    by (simp add: eval_main)
  have n: "website_name (sample_args r None np) = None"
    "website_name (sample_args r (Some (str ''Acme'')) np) = Some (str ''Acme'')"
    "str ''Acme'' \<noteq> []" for r np
    by (simp_all add: sample_args_def str_def)
  show ?thesis
    using 1 2
      C8_website_name[of "sample_env Tty EOFError (Returns JNull)"
        "sample_args (Some (str ''shop'')) None False" empty_fs]
      C8_website_name[of "sample_env Tty EOFError (Returns JNull)"
        "sample_args (Some (str ''shop'')) (Some (str ''Acme'')) False" empty_fs]
    by (simp add: n)
qed

subsection \<open>C9: repeated runs\<close>

text \<open>
  Read as it stands, the claim makes the bag of \<open>_build_inputs\<close> the same in two runs
  with the same request. The bag holds the year of the clock, so it differs between a run
  in 2025 and a run in 2026.
\<close>

theorem C9_counterexample:
  "build_inputs 2025 (str ''shop'') \<noteq> build_inputs 2026 (str ''shop'')"
  by (simp add: build_inputs_def decimal.simps)

text \<open>
  Claim C9, as the code has it, with the library taken as a function of the crew and the
  inputs. The year of the clock has no effect on a run of \<open>main\<close>: at another year the
  run returns the same code, starts the pipeline with the same inputs and leaves the same
  file system and the same record of writes. The inputs that the pipeline is started with
  are those of \<open>run\<close>, the request and the name, so two runs with the same request and
  name start it with the same inputs; and the crew handed to the library lists the tasks
  in the declared order. The bag of \<open>_build_inputs\<close> holds the year of the clock: built
  from one request, it is the same in two runs exactly when the year is the same.
\<close>

theorem C9_repeated_runs:
  "main (env\<lparr>now_year := y\<rparr>) a fs = main env a fs \<and>
   (\<forall>i. kicked (main env a fs) = Some i \<longrightarrow>
      i = [(''customer_request'', request_of env a),
           (''website_name'', or_default (website_name a) placeholder)]) \<and>
   (request_of env' a' = request_of env a \<and> website_name a' = website_name a \<longrightarrow>
      (\<forall>i i'. kicked (main env a fs) = Some i \<and> kicked (main env' a' fs') = Some i' \<longrightarrow>
         i = i')) \<and>
   (\<forall>c. crew (self_of env) = Inr c \<longrightarrow> map fst (tasks c) = map fst declared_tasks) \<and>
   ((build_inputs y r = build_inputs y' r) = (y = y'))"
proof -
  have 1: "\<forall>i. kicked (main env a fs) = Some i \<longrightarrow>
      i = run_inputs (request_of env a) (website_name a)" for env a fs
    using kicked_main[of env a fs] by auto
  have k: "\<forall>i. kicked (main env a fs) = Some i \<longrightarrow>
      i = [(''customer_request'', request_of env a),
           (''website_name'', or_default (website_name a) placeholder)]"
    using 1[of env a fs] by (simp add: run_inputs_def)
  have 2: "request_of env' a' = request_of env a \<and> website_name a' = website_name a \<longrightarrow>
      (\<forall>i i'. kicked (main env a fs) = Some i \<and> kicked (main env' a' fs') = Some i' \<longrightarrow>
         i = i')"
    using 1[of env a fs] 1[of env' a' fs'] by auto
  have 3: "\<forall>c. crew (self_of env) = Inr c \<longrightarrow> map fst (tasks c) = map fst declared_tasks"
  proof (intro allI impI)
    fix c assume "crew (self_of env) = Inr c"
    from crew_tasks_declared[OF this]
    have "map fst (map (\<lambda>nt. (fst nt, snd (snd nt))) (tasks c)) = map fst declared_tasks"
      by simp
    then show "map fst (tasks c) = map fst declared_tasks" by (simp add: comp_def)
  qed
  have 4: "(build_inputs y r = build_inputs y' r) = (y = y')"
    by (simp add: build_inputs_def decimal_inj)
  from main_clock[where env = env and y = y and a = a and fs = fs] k 2 3 4
  show ?thesis by blast
qed

text \<open>
  A run and the same run six years later; and a second run in which the same request
  comes from the flag beside piped data.
\<close>

theorem C9_witness:
  "main ((sample_env Tty EOFError (Returns JNull))\<lparr>now_year := 2031\<rparr>)
      (sample_args (Some (str ''shop'')) None False) empty_fs =
   main (sample_env Tty EOFError (Returns JNull)) (sample_args (Some (str ''shop'')) None False) empty_fs \<and>
   kicked (main (sample_env Tty EOFError (Returns JNull))
      (sample_args (Some (str ''shop'')) None False) empty_fs) =
     Some [(''customer_request'', str ''shop''), (''website_name'', str ''Generated Website'')] \<and>
   kicked (main (sample_env (Piped (str ''from the pipe'')) (Line (str ''typed'')) (Raises KeyboardInterrupt))
      (sample_args (Some (str '' shop '')) None True) empty_fs) =
   kicked (main (sample_env Tty EOFError (Returns JNull))
      (sample_args (Some (str ''shop'')) None False) empty_fs) \<and>
   build_inputs 2031 (str ''shop'') \<noteq> build_inputs 2025 (str ''shop'')"
proof -
  let ?e = "sample_env Tty EOFError (Returns JNull)"
  let ?a = "sample_args (Some (str ''shop'')) None False"
  let ?e' = "sample_env (Piped (str ''from the pipe'')) (Line (str ''typed'')) (Raises KeyboardInterrupt)"
  let ?a' = "sample_args (Some (str '' shop '')) None True"
  note t = C9_repeated_runs[where env = ?e and a = ?a and fs = empty_fs and y = 2031
      and env' = ?e' and a' = ?a' and fs' = empty_fs and r = "str ''shop''" and y' = 2025]
  have k: "kicked (main ?e ?a empty_fs) \<noteq> None" "kicked (main ?e' ?a' empty_fs) \<noteq> None"
    by (simp_all add: eval_main)
  have r: "request_of ?e ?a = str ''shop''" "request_of ?e' ?a' = str ''shop''"
    "website_name ?a = None" "website_name ?a' = None"
    by (simp_all add: request_of_def sample_env_def eval_text)
  from t have 1: "main (?e\<lparr>now_year := 2031\<rparr>) ?a empty_fs = main ?e ?a empty_fs" by blast
  from t k(1) r have 2: "kicked (main ?e ?a empty_fs) =
     Some [(''customer_request'', str ''shop''), (''website_name'', str ''Generated Website'')]"
    by (auto simp: or_default_def placeholder_def)
  from t k r have 3: "kicked (main ?e' ?a' empty_fs) = kicked (main ?e ?a empty_fs)"
    by auto
  from t have 4: "build_inputs 2031 (str ''shop'') \<noteq> build_inputs 2025 (str ''shop'')"
    by simp
  from 1 2 3 4 show ?thesis by simp
qed

subsection \<open>C10: the normal form of the request\<close>

text \<open>
  Read as it stands, the claim frees the request of CRLF on every path. A CRLF inside the
  flag stays, as the flag is only stripped; and piped data in which a CR stands directly
  before a CRLF keeps a CRLF after the one scan of \<open>replace\<close>.
\<close>

theorem C10_counterexample:
  "has_crlf (resolve_customer_request Tty EOFError
      (sample_args (Some (str ''a'' @ [CR, LF] @ str ''b'')) None False)) \<and>
   has_crlf (resolve_customer_request (Piped (str ''a'' @ [CR, CR, LF] @ str ''b'')) EOFError
      (sample_args None None False))"
  by (simp add: eval_text)

text \<open>
  Claim C10, as the code has it. The resolved request has no whitespace at either end on
  every path. A blank flag counts as no flag, and blank piped data count as no data. A
  request taken from piped data has no CRLF when no CR stands directly before a CRLF in
  the data.
\<close>

theorem C10_request_normal_form:
  "trimmed (resolve_customer_request sin r a) \<and>
   (\<forall>req. customer_request a = Some req \<and> blank req \<longrightarrow>
      resolve_customer_request sin r a = resolve_customer_request sin r (a\<lparr>customer_request := None\<rparr>)) \<and>
   (\<forall>data. blank data \<longrightarrow>
      resolve_customer_request (Piped data) r a = resolve_customer_request Tty r a) \<and>
   (\<forall>data. flag_absent a \<and> data_present (Piped data) \<and> \<not> has_crcrlf data \<longrightarrow>
      \<not> has_crlf (resolve_customer_request (Piped data) r a))"
proof (intro conjI allI impI)
  show "trimmed (resolve_customer_request sin r a)" by (rule trimmed_resolve)
next
  fix req assume "customer_request a = Some req \<and> blank req"
  then have "flag_absent a" by (simp add: flag_absent_def)
  moreover have "flag_absent (a\<lparr>customer_request := None\<rparr>)" by (simp add: flag_absent_def)
  ultimately show "resolve_customer_request sin r a =
      resolve_customer_request sin r (a\<lparr>customer_request := None\<rparr>)"
    by (simp add: resolve_no_flag stdin_or_prompt_def)
next
  fix data :: pystr assume "blank data"
  then have "stdin_text (Piped data) = []"
    by (simp add: stdin_text_def strip_Nil_iff blank_replace_crlf)
  then have "stdin_or_prompt (Piped data) r a = stdin_or_prompt Tty r a"
    by (simp add: stdin_or_prompt_def stdin_text_def)
  then show "resolve_customer_request (Piped data) r a = resolve_customer_request Tty r a"
    by (simp add: resolve_customer_request_def split: option.splits)
next
  fix data assume h: "flag_absent a \<and> data_present (Piped data) \<and> \<not> has_crcrlf data"
  then have "resolve_customer_request (Piped data) r a = stdin_text (Piped data)"
    using stdin_text_Nil_iff[of "Piped data"]
    by (simp add: resolve_no_flag stdin_or_prompt_def Let_def)
  then show "\<not> has_crlf (resolve_customer_request (Piped data) r a)"
    using h no_crlf_stdin_text by simp
qed

text \<open>
  A blank flag gives way to piped data with two CRLF line endings; a blank pipe gives
  way to the prompt.
\<close>

theorem C10_witness:
  "trimmed (resolve_customer_request (Piped (str '' a'' @ [CR, LF] @ str ''b '' @ [CR, LF])) EOFError
      (sample_args (Some (str ''  '')) None True)) \<and>
   resolve_customer_request (Piped (str '' a'' @ [CR, LF] @ str ''b '' @ [CR, LF])) EOFError
      (sample_args (Some (str ''  '')) None True) = str ''a'' @ [LF] @ str ''b'' \<and>
   \<not> has_crlf (resolve_customer_request (Piped (str '' a'' @ [CR, LF] @ str ''b '' @ [CR, LF]))
      EOFError (sample_args None None True)) \<and>
   resolve_customer_request (Piped (str '' '' @ [CR, LF])) (Line (str '' shop ''))
      (sample_args None None False) = str ''shop''"
  using
    C10_request_normal_form[of "Piped (str '' a'' @ [CR, LF] @ str ''b '' @ [CR, LF])" EOFError
      "sample_args (Some (str ''  '')) None True"]
    C10_request_normal_form[of "Piped (str '' a'' @ [CR, LF] @ str ''b '' @ [CR, LF])" EOFError
      "sample_args None None True"]
    C10_request_normal_form[of "Piped (str '' '' @ [CR, LF])" "Line (str '' shop '')"
      "sample_args None None False"]
  by (simp add: eval_text)

end
